theory Spec2Isabelle
  imports Complex_Main "HOL-Library.AList"
begin

section \<open>Values, errors and the transport\<close>

text \<open>
  The program is one Python class, \<open>NEPSEAutoBuyer\<close>, whose coroutines talk to a broker
  over HTTP. Each coroutine is embedded as a function of the responses it receives.

  \<^item> A value decoded from JSON is a \<open>pyval\<close>.
  \<^item> Python's \<open>float\<close> values are modelled as exact rationals: there is no rounding
    error, no infinity and no NaN. Every comparison and branch of the source is kept.
  \<^item> The builtin \<open>float(str)\<close> is a parameter \<open>pf\<close> of the model (\<open>None\<close> when it
    raises \<open>ValueError\<close>), so no theorem depends on which strings it accepts.
  \<^item> An exception is a value of type \<open>error\<close>.
\<close>

datatype pyval =
    PNone
  | PBool bool
  | PInt int
  | PFloat rat
  | PStr string
  | PList "pyval list"
  | PDict "(string \<times> pyval) list"

datatype error =
    Exception string
  | IndexError
  | KeyError
  | TypeError
  | ValueError
  | AttributeError
  | ZeroDivisionError
  | JSONDecodeError
  | ClientError

text \<open>
  One HTTP exchange: the transport fails (aiohttp raises), or a response arrives with a
  status code and a body. The body is what \<open>orjson.loads\<close> makes of the payload
  (after \<open>.decode().replace("'", '"')\<close> where the source does that), \<open>None\<close> when
  decoding raises.
\<close>

datatype http_result = ConnFailed | Http nat "pyval option"

text \<open>Truthiness, as \<open>not x\<close> and \<open>x or 0\<close> use it.\<close>

fun truthy :: "pyval \<Rightarrow> bool" where
  "truthy PNone = False"
| "truthy (PBool b) = b"
| "truthy (PInt i) = (i \<noteq> 0)"
| "truthy (PFloat r) = (r \<noteq> 0)"
| "truthy (PStr s) = (s \<noteq> [])"
| "truthy (PList xs) = (xs \<noteq> [])"
| "truthy (PDict kvs) = (kvs \<noteq> [])"

text \<open>\<open>d[k]\<close> with a string key: only a dict can be subscripted that way.\<close>

fun getitem :: "pyval \<Rightarrow> string \<Rightarrow> error + pyval" where
  "getitem (PDict kvs) k = (case map_of kvs k of None \<Rightarrow> Inl KeyError | Some v \<Rightarrow> Inr v)"
| "getitem _ k = Inl TypeError"

text \<open>\<open>int(x)\<close> of a float truncates towards zero.\<close>

definition py_int :: "rat \<Rightarrow> int" where
  "py_int x = (if 0 \<le> x then \<lfloor>x\<rfloor> else \<lceil>x\<rceil>)"

text \<open>\<open>s.replace(',', '')\<close>\<close>

definition drop_commas :: "string \<Rightarrow> string" where
  "drop_commas s = filter (\<lambda>c. c \<noteq> CHR '','') s"

text \<open>The builtin \<open>float(x)\<close> on a decoded value.\<close>

fun py_float :: "(string \<Rightarrow> rat option) \<Rightarrow> pyval \<Rightarrow> error + rat" where
  "py_float pf (PStr s) = (case pf s of None \<Rightarrow> Inl ValueError | Some r \<Rightarrow> Inr r)"
| "py_float pf (PInt i) = Inr (of_int i)"
| "py_float pf (PFloat r) = Inr r"
| "py_float pf (PBool b) = Inr (if b then 1 else 0)"
| "py_float pf _ = Inl TypeError"

text \<open>\<open>float(x.replace(',', ''))\<close>: only a \<open>str\<close> has \<open>replace\<close>.\<close>

fun float_of_replaced :: "(string \<Rightarrow> rat option) \<Rightarrow> pyval \<Rightarrow> error + rat" where
  "float_of_replaced pf (PStr s) = py_float pf (PStr (drop_commas s))"
| "float_of_replaced pf _ = Inl AttributeError"

text \<open>
  \<open>float(str(x).replace(',', ''))\<close>: \<open>str\<close> of a number prints it without commas and
  \<open>float\<close> reads it back; \<open>str\<close> of \<open>None\<close>, a bool, a list or a dict is no number.
\<close>

fun float_of_str_replaced :: "(string \<Rightarrow> rat option) \<Rightarrow> pyval \<Rightarrow> error + rat" where
  "float_of_str_replaced pf (PStr s) = py_float pf (PStr (drop_commas s))"
| "float_of_str_replaced pf (PInt i) = Inr (of_int i)"
| "float_of_str_replaced pf (PFloat r) = Inr r"
| "float_of_str_replaced pf _ = Inl ValueError"

section \<open>The per-symbol state\<close>

text \<open>
  One entry of \<open>self.stock_states\<close>. \<open>order_id_index\<close> starts at 0 and is only ever
  incremented, so it is a natural number.
\<close>

record stock_state =
  applied_qnty :: int
  opening_price :: pyval
  percent :: rat
  ltp :: pyval
  ltp_p :: rat
  circuit_price :: rat
  previous_day_closing :: rat
  high_price :: rat
  initial_per :: rat
  circuit_per :: rat
  remain_per :: rat
  duplicate_order_id :: "string option"
  duplicate_order_ids :: "string list"
  order_id_index :: nat

definition init_state :: "int \<Rightarrow> stock_state" where
  "init_state quantity =
     \<lparr>applied_qnty = quantity, opening_price = PInt 0, percent = 0, ltp = PInt 0, ltp_p = 0,
      circuit_price = 0, previous_day_closing = 0, high_price = 0, initial_per = - 2,
      circuit_per = 0, remain_per = 0, duplicate_order_id = None, duplicate_order_ids = [],
      order_id_index = 0\<rparr>"

section \<open>Events and outcomes\<close>

text \<open>
  What a coroutine does to the outside world is its list of events, in order: a quote
  request for a symbol, an order submission (symbol, \<open>spnQuantity\<close>, \<open>spnPrice\<close>,
  \<open>duplicateOrderId\<close>, \<open>marketPrice\<close>), a market-status request, and the message that
  \<open>detect\<close> writes to the log when it catches an exception. The other log lines and the
  constant fields of the order form are not part of the events.

  The responses are given as finite lists. A coroutine that has sent a request and finds
  the list empty is still waiting: its outcome is \<open>Blocked\<close>. \<open>Returned\<close> is a normal
  return, \<open>Raised e\<close> an exception that leaves the coroutine.
\<close>

datatype event =
    WatchReq string
  | OrderReq string int rat "string option" rat
  | StatusReq
  | LogError error

datatype outcome = Returned | Raised error | Blocked

section \<open>watch\_stock\<close>

definition market_closed :: error where
  "market_closed = Exception ''Seems like market is closed!''"

text \<open>
  The assignments inside the \<open>try\<close> of \<open>watch_stock\<close>, in the source's order. The state
  keeps the fields written before the failing one.
\<close>

definition watch_fields ::
  "(string \<Rightarrow> rat option) \<Rightarrow> pyval \<Rightarrow> stock_state \<Rightarrow> stock_state \<times> error option" where
  "watch_fields pf d s =
     (case getitem d ''tradeprice'' of
        Inl e \<Rightarrow> (s, Some e)
      | Inr tp \<Rightarrow>
          (let s1 = s\<lparr>ltp := tp\<rparr> in
           (case getitem d ''vwap'' of
              Inl e \<Rightarrow> (s1, Some e)
            | Inr vw \<Rightarrow>
                (case float_of_replaced pf vw of
                   Inl e \<Rightarrow> (s1, Some e)
                 | Inr pc \<Rightarrow>
                     (let s2 = s1\<lparr>previous_day_closing := pc\<rparr> in
                      (case getitem d ''openingprice'' of
                         Inl e \<Rightarrow> (s2, Some e)
                       | Inr op \<Rightarrow>
                           (let s3 = s2\<lparr>opening_price := op\<rparr> in
                            (case getitem d ''perchange'' of
                               Inl e \<Rightarrow> (s3, Some e)
                             | Inr pg \<Rightarrow>
                                 (case py_float pf (if truthy pg then pg else PInt 0) of
                                    Inl e \<Rightarrow> (s3, Some e)
                                  | Inr p \<Rightarrow>
                                      (let s4 = s3\<lparr>percent := p\<rparr> in
                                       (case getitem d ''highdpr'' of
                                          Inl e \<Rightarrow> (s4, Some e)
                                        | Inr h \<Rightarrow>
                                            (case float_of_str_replaced pf h of
                                               Inl e \<Rightarrow> (s4, Some e)
                                             | Inr hf \<Rightarrow>
                                                 (s4\<lparr>circuit_price := of_int (py_int (hf * 10)) / 10\<rparr>,
                                                  None)))))))))))))"

definition watch_stock ::
  "(string \<Rightarrow> rat option) \<Rightarrow> http_result \<Rightarrow> stock_state \<Rightarrow> stock_state \<times> error option" where
  "watch_stock pf resp s =
     (case resp of
        ConnFailed \<Rightarrow> (s, Some ClientError)
      | Http status body \<Rightarrow>
          if status = 200 then
            (case body of
               None \<Rightarrow> (s, Some market_closed)
             | Some j \<Rightarrow>
                 (case getitem j ''data'' of
                    Inl e \<Rightarrow> (s, Some market_closed)
                  | Inr d \<Rightarrow>
                      (case watch_fields pf d s of
                         (s', None) \<Rightarrow> (s', None)
                       | (s', Some e) \<Rightarrow> (s', Some market_closed))))
          else (s, Some (Exception ''Failed to fetch watch details!'')))"

section \<open>place\_buy\_order\<close>

text \<open>
  The request is the event \<open>order_req\<close>; \<open>place_buy_order\<close> is what the coroutine makes
  of the response. A decoded response whose \<open>code\<close> is not \<open>'0'\<close> raises nothing.
\<close>

definition order_req :: "string \<Rightarrow> stock_state \<Rightarrow> int \<Rightarrow> event" where
  "order_req symbol s quantity =
     OrderReq symbol quantity (high_price s) (duplicate_order_id s) (ltp_p s)"

definition place_buy_order :: "http_result \<Rightarrow> error option" where
  "place_buy_order resp =
     (case resp of
        ConnFailed \<Rightarrow> Some ClientError
      | Http status body \<Rightarrow>
          if status = 200 then
            (case body of
               None \<Rightarrow> Some (Exception ''Buy Response is not in expected format!'')
             | Some j \<Rightarrow>
                 (case getitem j ''code'' of
                    Inl e \<Rightarrow> Some (Exception ''Buy Response is not in expected format!'')
                  | Inr c \<Rightarrow> None))
          else Some (Exception ''Failed to place buy order!''))"

section \<open>detect\<close>

text \<open>The first loop of \<open>detect\<close>: \<open>while not state['opening_price']\<close>. It is outside the
  \<open>try\<close>, so an exception of \<open>watch_stock\<close> leaves \<open>detect\<close>. The result carries the
  outcome when the loop did not finish, and the quote responses that are left.\<close>

fun awaiting_open ::
  "(string \<Rightarrow> rat option) \<Rightarrow> string \<Rightarrow> stock_state \<Rightarrow> http_result list \<Rightarrow>
   event list \<times> outcome option \<times> stock_state \<times> http_result list" where
  "awaiting_open pf symbol s ws =
     (if truthy (opening_price s) then ([], None, s, ws)
      else
        (case ws of
           [] \<Rightarrow> ([WatchReq symbol], Some Blocked, s, [])
         | w # ws' \<Rightarrow>
             (case watch_stock pf w s of
                (s', Some e) \<Rightarrow> ([WatchReq symbol], Some (Raised e), s', ws')
              | (s', None) \<Rightarrow>
                  (case awaiting_open pf symbol s' ws' of
                     (evs, out, sf, rest) \<Rightarrow> (WatchReq symbol # evs, out, sf, rest)))))"

text \<open>The assignment of \<open>circuit_per\<close> between the two loops, also outside the \<open>try\<close>.\<close>

definition circuit_per_of :: "rat \<Rightarrow> rat \<Rightarrow> rat" where
  "circuit_per_of cp pc = of_int (py_int (((cp - pc) * 100 / pc) * 100)) / 100"

definition set_circuit_per :: "stock_state \<Rightarrow> error + stock_state" where
  "set_circuit_per s =
     (if previous_day_closing s = 0 then Inl ZeroDivisionError
      else Inr (s\<lparr>circuit_per := circuit_per_of (circuit_price s) (previous_day_closing s)\<rparr>))"

text \<open>The two price assignments that open every iteration of the second loop.\<close>

definition set_prices :: "(string \<Rightarrow> rat option) \<Rightarrow> stock_state \<Rightarrow> error + stock_state" where
  "set_prices pf s =
     (case float_of_replaced pf (ltp s) of
        Inl e \<Rightarrow> Inl e
      | Inr v \<Rightarrow>
          let s1 = s\<lparr>ltp_p := v\<rparr>
          in Inr (s1\<lparr>high_price := of_int (py_int (ltp_p s1 * (102 / 100) * 10)) / 10\<rparr>))"

text \<open>\<open>state['duplicate_order_id'] = state['duplicate_order_ids'][state['order_id_index']]\<close>\<close>

definition draw_token :: "stock_state \<Rightarrow> error + stock_state" where
  "draw_token s =
     (if order_id_index s < length (duplicate_order_ids s)
      then Inr (s\<lparr>duplicate_order_id := Some (duplicate_order_ids s ! order_id_index s)\<rparr>)
      else Inl IndexError)"

text \<open>
  One iteration of \<open>while True\<close> up to, and without, its closing \<open>watch_stock\<close>. \<open>Stop\<close>:
  \<open>detect\<close> is over (a \<open>return\<close>, the \<open>except\<close> handler, or no response yet).
  \<open>Continue\<close>: the iteration goes on to poll, with the order responses that are left.
\<close>

datatype step =
    Stop "event list" outcome stock_state
  | Continue "event list" stock_state "http_result list"

definition active_body ::
  "(string \<Rightarrow> rat option) \<Rightarrow> string \<Rightarrow> stock_state \<Rightarrow> http_result list \<Rightarrow> step" where
  "active_body pf symbol s os =
     (case set_prices pf s of
        Inl e \<Rightarrow> Stop [LogError e] Returned s
      | Inr s2 \<Rightarrow>
          if percent s2 > initial_per s2 then
            (case draw_token s2 of
               Inl e \<Rightarrow> Stop [LogError e] Returned s2
             | Inr s3 \<Rightarrow>
                 let s4 = s3\<lparr>remain_per := circuit_per s3 - percent s3\<rparr> in
                 if remain_per s4 \<le> 21 / 10 then
                   let s5 = s4\<lparr>high_price := circuit_price s4\<rparr>;
                       req = order_req symbol s5 (applied_qnty s5) in
                   (case os of
                      [] \<Rightarrow> Stop [req] Blocked s5
                    | r # os' \<Rightarrow>
                        (case place_buy_order r of
                           Some e \<Rightarrow> Stop [req, LogError e] Returned s5
                         | None \<Rightarrow> Stop [req] Returned s5))
                 else
                   let req = order_req symbol s4 10 in
                   (case os of
                      [] \<Rightarrow> Stop [req] Blocked s4
                    | r # os' \<Rightarrow>
                        (case place_buy_order r of
                           Some e \<Rightarrow> Stop [req, LogError e] Returned s4
                         | None \<Rightarrow>
                             let s5 = s4\<lparr>initial_per := percent s4\<rparr>;
                                 s6 = s5\<lparr>order_id_index := order_id_index s5 + 1\<rparr>
                             in Continue [req] s6 os')))
          else Continue [] s2 os)"

text \<open>The second loop of \<open>detect\<close>, with its \<open>except Exception\<close> handler.\<close>

fun active_loop ::
  "(string \<Rightarrow> rat option) \<Rightarrow> string \<Rightarrow> stock_state \<Rightarrow> http_result list \<Rightarrow> http_result list \<Rightarrow>
   event list \<times> outcome \<times> stock_state" where
  "active_loop pf symbol s os ws =
     (case active_body pf symbol s os of
        Stop evs out s' \<Rightarrow> (evs, out, s')
      | Continue evs s' os' \<Rightarrow>
          (case ws of
             [] \<Rightarrow> (evs @ [WatchReq symbol], Blocked, s')
           | w # ws' \<Rightarrow>
               (case watch_stock pf w s' of
                  (s'', Some e) \<Rightarrow> (evs @ [WatchReq symbol, LogError e], Returned, s'')
                | (s'', None) \<Rightarrow>
                    (case active_loop pf symbol s'' os' ws' of
                       (evs', out, sf) \<Rightarrow> (evs @ WatchReq symbol # evs', out, sf)))))"

definition detect ::
  "(string \<Rightarrow> rat option) \<Rightarrow> string \<Rightarrow> stock_state \<Rightarrow> http_result list \<Rightarrow> http_result list \<Rightarrow>
   event list \<times> outcome \<times> stock_state" where
  "detect pf symbol s os ws =
     (case awaiting_open pf symbol s ws of
        (evs, Some out, s1, rest) \<Rightarrow> (evs, out, s1)
      | (evs, None, s1, rest) \<Rightarrow>
          (case set_circuit_per s1 of
             Inl e \<Rightarrow> (evs, Raised e, s1)
           | Inr s2 \<Rightarrow>
               (case active_loop pf symbol s2 os rest of
                  (evs', out, sf) \<Rightarrow> (evs @ evs', out, sf))))"

section \<open>The market gate\<close>

text \<open>
  \<open>market_status\<close> returns the decoded \<open>data.status\<close>; when the status code is not 200,
  or the payload cannot be decoded or lacks the keys, it returns \<open>None\<close>. An exception of
  the transport itself is not caught.
\<close>

definition market_status :: "http_result \<Rightarrow> error + pyval" where
  "market_status resp =
     (case resp of
        ConnFailed \<Rightarrow> Inl ClientError
      | Http status body \<Rightarrow>
          if status = 200 then
            (case body of
               None \<Rightarrow> Inr PNone
             | Some j \<Rightarrow>
                 (case getitem j ''data'' of
                    Inl e \<Rightarrow> Inr PNone
                  | Inr d \<Rightarrow>
                      (case getitem d ''status'' of
                         Inl e \<Rightarrow> Inr PNone
                       | Inr v \<Rightarrow> Inr v)))
          else Inr PNone)"

text \<open>
  \<open>wait_market_open\<close>. Every iteration reads the clock first: \<open>hours\<close> lists the values
  of \<open>current_time.hour\<close>, one per iteration, and the model stops with \<open>Blocked\<close> when
  the list is used up (the loop is still running). \<open>srs\<close> are the responses to the status
  requests, \<open>wrs\<close> those to the quote requests for the demo symbol, whose state the quote
  overwrites inside \<open>self.stock_states\<close>.
\<close>

fun wait_market_open ::
  "(string \<Rightarrow> rat option) \<Rightarrow> string \<Rightarrow> (string \<times> stock_state) list \<Rightarrow> nat list \<Rightarrow>
   http_result list \<Rightarrow> http_result list \<Rightarrow> event list \<times> outcome \<times> (string \<times> stock_state) list" where
  "wait_market_open pf demo states [] srs wrs = ([], Blocked, states)"
| "wait_market_open pf demo states (h # hs) srs wrs =
     (case srs of
        [] \<Rightarrow> ([StatusReq], Blocked, states)
      | r # srs' \<Rightarrow>
          (case market_status r of
             Inl e \<Rightarrow> ([StatusReq], Raised e, states)
           | Inr status \<Rightarrow>
               if h \<ge> 11 \<and> status \<noteq> PStr ''Close'' then ([StatusReq], Returned, states)
               else
                 (case map_of states demo of
                    None \<Rightarrow> ([StatusReq], Raised KeyError, states)
                  | Some s \<Rightarrow>
                      (case wrs of
                         [] \<Rightarrow> ([StatusReq, WatchReq demo], Blocked, states)
                       | w # wrs' \<Rightarrow>
                           (case watch_stock pf w s of
                              (s', Some e) \<Rightarrow>
                                ([StatusReq, WatchReq demo], Raised e, AList.update demo s' states)
                            | (s', None) \<Rightarrow>
                                (case wait_market_open pf demo (AList.update demo s' states) hs srs' wrs' of
                                   (evs, out, sf) \<Rightarrow> (StatusReq # WatchReq demo # evs, out, sf)))))))"

section \<open>The token pool\<close>

definition chars :: string where
  "chars = ''123456789abcdefghijklmnopqrstuvwxyzABCDEFGHIJKLMNOPQRSTUVWXYZ''"

text \<open>\<open>chars[:-2]\<close>\<close>

definition trimmed_chars :: string where
  "trimmed_chars = take (length chars - 2) chars"

text \<open>
  \<open>random.choices(population, k=k)\<close> returns \<open>k\<close> elements of the population, chosen
  with replacement. The choice is the generator's: \<open>rnd\<close> is the sequence of its picks and
  \<open>c\<close> counts the picks made so far. A pick is reduced modulo the size of the
  population, so every sequence \<open>rnd\<close> stands for a run of the generator and every run is
  some \<open>rnd\<close>.
\<close>

definition choices :: "(nat \<Rightarrow> nat) \<Rightarrow> nat \<Rightarrow> 'a list \<Rightarrow> nat \<Rightarrow> 'a list" where
  "choices rnd c population k =
     map (\<lambda>i. population ! (rnd (c + i) mod length population)) [0..<k]"

definition generate_duplicate_order_id :: "(nat \<Rightarrow> nat) \<Rightarrow> nat \<Rightarrow> string \<times> nat" where
  "generate_duplicate_order_id rnd c = (choices rnd c trimmed_chars 10, c + 10)"

text \<open>The inner loop of \<open>setup\<close>: \<open>n\<close> tokens, one after the other.\<close>

fun generate_ids :: "(nat \<Rightarrow> nat) \<Rightarrow> nat \<Rightarrow> nat \<Rightarrow> string list \<times> nat" where
  "generate_ids rnd c 0 = ([], c)"
| "generate_ids rnd c (Suc n) =
     (case generate_duplicate_order_id rnd c of
        (t, c1) \<Rightarrow> (case generate_ids rnd c1 n of (ts, c2) \<Rightarrow> (t # ts, c2)))"

text \<open>The outer loop of \<open>setup\<close>: 20 tokens appended to the pool of every state.\<close>

fun fill_pools ::
  "(nat \<Rightarrow> nat) \<Rightarrow> nat \<Rightarrow> (string \<times> stock_state) list \<Rightarrow> (string \<times> stock_state) list" where
  "fill_pools rnd c [] = []"
| "fill_pools rnd c ((k, s) # rest) =
     (case generate_ids rnd c 20 of
        (ids, c') \<Rightarrow>
          (k, s\<lparr>duplicate_order_ids := duplicate_order_ids s @ ids\<rparr>) # fill_pools rnd c' rest)"

section \<open>The run\<close>

text \<open>
  \<open>get_cookies\<close>: with status 200 the value of the cookie \<open>JSESSIONID\<close> (its absence
  raises \<open>AttributeError\<close>, on \<open>None.value\<close>), otherwise \<open>None\<close>.
\<close>

datatype cookie_result = CookieConnFailed | CookieResp nat "string option"

definition get_cookies :: "cookie_result \<Rightarrow> error + string option" where
  "get_cookies resp =
     (case resp of
        CookieConnFailed \<Rightarrow> Inl ClientError
      | CookieResp status cookie \<Rightarrow>
          if status = 200 then
            (case cookie of None \<Rightarrow> Inl AttributeError | Some v \<Rightarrow> Inr (Some v))
          else Inr None)"

text \<open>\<open>login\<close> has no \<open>try\<close>: a decoding or lookup failure leaves it as it is. The result
  is \<open>(watchID, broker_code)\<close>.\<close>

definition login :: "http_result \<Rightarrow> error + pyval \<times> pyval" where
  "login resp =
     (case resp of
        ConnFailed \<Rightarrow> Inl ClientError
      | Http status body \<Rightarrow>
          if status = 200 then
            (case body of
               None \<Rightarrow> Inl JSONDecodeError
             | Some data \<Rightarrow>
                 (case getitem data ''code'' of
                    Inl e \<Rightarrow> Inl e
                  | Inr c \<Rightarrow>
                      if c = PStr ''0'' then
                        (case getitem data ''watchID'' of
                           Inl e \<Rightarrow> Inl e
                         | Inr w \<Rightarrow>
                             (case getitem data ''broker_code'' of
                                Inl e \<Rightarrow> Inl e
                              | Inr b \<Rightarrow> Inr (w, b)))
                      else Inl (Exception ''Unexpected response during login process'')))
          else Inl (Exception ''Login failed! due to bad request''))"

text \<open>\<open>x[0]\<close>\<close>

fun getitem0 :: "pyval \<Rightarrow> error + pyval" where
  "getitem0 (PList []) = Inl IndexError"
| "getitem0 (PList (x # xs)) = Inr x"
| "getitem0 (PStr []) = Inl IndexError"
| "getitem0 (PStr (c # cs)) = Inr (PStr [c])"
| "getitem0 (PDict kvs) = Inl KeyError"
| "getitem0 _ = Inl TypeError"

text \<open>The lookups inside the \<open>try\<close> of \<open>fetch_user_details\<close>; the result is
  \<open>(clientacntid, clientCode, lastName, nic)\<close>.\<close>

definition user_info :: "pyval \<Rightarrow> error + pyval \<times> pyval \<times> pyval \<times> pyval" where
  "user_info response_dict =
     (case getitem response_dict ''data'' of
        Inl e \<Rightarrow> Inl e
      | Inr d \<Rightarrow>
          (case getitem d ''userids'' of
             Inl e \<Rightarrow> Inl e
           | Inr us \<Rightarrow>
               (case getitem0 us of
                  Inl e \<Rightarrow> Inl e
                | Inr u \<Rightarrow>
                    (case getitem u ''clientacntid'' of
                       Inl e \<Rightarrow> Inl e
                     | Inr a \<Rightarrow>
                         (case getitem u ''clientCode'' of
                            Inl e \<Rightarrow> Inl e
                          | Inr cc \<Rightarrow>
                              (case getitem u ''lastName'' of
                                 Inl e \<Rightarrow> Inl e
                               | Inr nm \<Rightarrow>
                                   (case getitem u ''nic'' of
                                      Inl e \<Rightarrow> Inl e
                                    | Inr n \<Rightarrow> Inr (a, cc, nm, n))))))))"

definition fetch_user_details :: "http_result \<Rightarrow> error + pyval \<times> pyval \<times> pyval \<times> pyval" where
  "fetch_user_details resp =
     (case resp of
        ConnFailed \<Rightarrow> Inl ClientError
      | Http status body \<Rightarrow>
          if status = 200 then
            (case body of
               None \<Rightarrow> Inl (Exception ''Details Response is not in expected format!'')
             | Some j \<Rightarrow>
                 (case user_info j of
                    Inl e \<Rightarrow> Inl (Exception ''Details Response is not in expected format!'')
                  | Inr info \<Rightarrow> Inr info))
          else Inl (Exception ''Failed to fetch details!''))"

text \<open>
  The object after \<open>__init__\<close>: \<open>self.stock_states\<close> in insertion order, and
  \<open>self.demo_symbol\<close>. What the outside world supplies to one run is a \<open>run_input\<close>: the
  response to each request of the start-up, the generator's picks, the clock and the
  responses of the gate, and for each symbol the responses to its order and quote requests.
\<close>

record bot =
  stock_states :: "(string \<times> stock_state) list"
  demo_symbol :: string

record run_input =
  cookie_resp :: cookie_result
  picks :: "nat \<Rightarrow> nat"
  login_resp :: http_result
  details_resp :: http_result
  gate_hours :: "nat list"
  gate_status :: "http_result list"
  gate_watch :: "http_result list"
  order_resps :: "string \<Rightarrow> http_result list"
  watch_resps :: "string \<Rightarrow> http_result list"

text \<open>
  The result of a run: how \<open>runner\<close> ended, whether \<open>self.session.close()\<close> was
  performed, and what each \<open>detect\<close> task did. \<open>asyncio.gather\<close> with
  \<open>return_exceptions=True\<close> collects an exception of a task as that task's result; it
  finishes when every task has finished, so one task still waiting keeps the run waiting.
  The tasks share no state: every task works on the state of its own symbol.
\<close>

record run_result =
  run_outcome :: outcome
  session_closed :: bool
  task_results :: "(string \<times> event list \<times> outcome \<times> stock_state) list"

definition aborted :: "outcome \<Rightarrow> run_result" where
  "aborted out = \<lparr>run_outcome = out, session_closed = False, task_results = []\<rparr>"

definition gather ::
  "(string \<Rightarrow> rat option) \<Rightarrow> run_input \<Rightarrow> (string \<times> stock_state) list \<Rightarrow>
   (string \<times> event list \<times> outcome \<times> stock_state) list" where
  "gather pf inp states =
     map (\<lambda>(symbol, s). (symbol, detect pf symbol s (order_resps inp symbol) (watch_resps inp symbol)))
       states"

definition task_blocked :: "string \<times> event list \<times> outcome \<times> stock_state \<Rightarrow> bool" where
  "task_blocked r = (fst (snd (snd r)) = Blocked)"

definition runner :: "(string \<Rightarrow> rat option) \<Rightarrow> bot \<Rightarrow> run_input \<Rightarrow> run_result" where
  "runner pf b inp =
     (case get_cookies (cookie_resp inp) of
        Inl e \<Rightarrow> aborted (Raised e)
      | Inr cookies \<Rightarrow>
          let states = fill_pools (picks inp) 0 (stock_states b) in
          (case login (login_resp inp) of
             Inl e \<Rightarrow> aborted (Raised e)
           | Inr ids \<Rightarrow>
               (case fetch_user_details (details_resp inp) of
                  Inl e \<Rightarrow> aborted (Raised e)
                | Inr info \<Rightarrow>
                    (case wait_market_open pf (demo_symbol b) states
                            (gate_hours inp) (gate_status inp) (gate_watch inp) of
                       (evs, Returned, states') \<Rightarrow>
                         let results = gather pf inp states' in
                         if list_ex task_blocked results
                         then \<lparr>run_outcome = Blocked, session_closed = False, task_results = results\<rparr>
                         else \<lparr>run_outcome = Returned, session_closed = True, task_results = results\<rparr>
                     | (evs, out, states') \<Rightarrow> aborted out))))"

section \<open>A reader of decimal numerals\<close>

text \<open>
  One function that \<open>pf\<close> can be: it reads an optional sign, digits, and an optional
  point followed by digits, as \<open>float\<close> does on such a string; it is used for the concrete
  runs below.
\<close>

definition digit_of :: "char \<Rightarrow> nat option" where
  "digit_of c = map_of (zip ''0123456789'' [0, 1, 2, 3, 4, 5, 6, 7, 8, 9]) c"

fun digits_value :: "string \<Rightarrow> nat \<Rightarrow> nat option" where
  "digits_value [] acc = Some acc"
| "digits_value (c # cs) acc =
     (case digit_of c of None \<Rightarrow> None | Some d \<Rightarrow> digits_value cs (10 * acc + d))"

definition unsigned_decimal :: "string \<Rightarrow> rat option" where
  "unsigned_decimal s =
     (let ip = takeWhile (\<lambda>c. c \<noteq> CHR ''.'') s;
          fp = drop 1 (dropWhile (\<lambda>c. c \<noteq> CHR ''.'') s)
      in if ip = [] \<and> fp = [] then None
         else
           (case digits_value ip 0 of
              None \<Rightarrow> None
            | Some i \<Rightarrow>
                (case digits_value fp 0 of
                   None \<Rightarrow> None
                 | Some f \<Rightarrow> Some (of_nat i + of_nat f / 10 ^ length fp))))"

definition decimal_float :: "string \<Rightarrow> rat option" where
  "decimal_float s =
     (if take 1 s = ''-'' then map_option uminus (unsigned_decimal (drop 1 s))
      else if take 1 s = ''+'' then unsigned_decimal (drop 1 s)
      else unsigned_decimal s)"

section \<open>Reading results, and concrete responses\<close>

text \<open>The three parts of what a coroutine returns in the model.\<close>

definition evs_of :: "event list \<times> outcome \<times> 'a \<Rightarrow> event list" where
  "evs_of r = fst r"

definition out_of :: "event list \<times> outcome \<times> 'a \<Rightarrow> outcome" where
  "out_of r = fst (snd r)"

definition state_of :: "event list \<times> outcome \<times> 'a \<Rightarrow> 'a" where
  "state_of r = snd (snd r)"

text \<open>\<open>with_quote q s\<close> is \<open>s\<close> with the five fields that \<open>watch_stock\<close> assigns taken
  from \<open>q\<close>.\<close>

definition with_quote :: "stock_state \<Rightarrow> stock_state \<Rightarrow> stock_state" where
  "with_quote q s =
     s\<lparr>ltp := ltp q, previous_day_closing := previous_day_closing q,
       opening_price := opening_price q, percent := percent q,
       circuit_price := circuit_price q\<rparr>"

text \<open>The order events of a trace, and the tokens they carry.\<close>

fun is_order :: "event \<Rightarrow> bool" where
  "is_order (OrderReq symbol quantity price token market_price) = True"
| "is_order _ = False"

fun is_request :: "event \<Rightarrow> bool" where
  "is_request (LogError e) = False"
| "is_request _ = True"

fun token_of :: "event \<Rightarrow> string option" where
  "token_of (OrderReq symbol quantity price token market_price) = token"
| "token_of _ = None"

definition order_tokens :: "event list \<Rightarrow> string option list" where
  "order_tokens evs = map token_of (filter is_order evs)"

text \<open>Well-formed responses of the broker, for the concrete runs: a quote, a market
  status, an accepted order.\<close>

definition quote_response :: "string \<Rightarrow> string \<Rightarrow> string \<Rightarrow> string \<Rightarrow> string \<Rightarrow> http_result" where
  "quote_response tradeprice vwap openingprice perchange highdpr =
     Http 200 (Some (PDict [(''data'', PDict
       [(''tradeprice'', PStr tradeprice), (''vwap'', PStr vwap),
        (''openingprice'', PStr openingprice), (''perchange'', PStr perchange),
        (''highdpr'', PStr highdpr)])]))"

definition status_response :: "string \<Rightarrow> http_result" where
  "status_response status = Http 200 (Some (PDict [(''data'', PDict [(''status'', PStr status)])]))"

definition order_accepted :: http_result where
  "order_accepted = Http 200 (Some (PDict [(''code'', PStr ''0'')]))"

text \<open>The events of one iteration.\<close>

fun step_events :: "step \<Rightarrow> event list" where
  "step_events (Stop evs out s) = evs"
| "step_events (Continue evs s os) = evs"

text \<open>
  \<open>iteration pf symbol n s os ws\<close> is where the second loop of \<open>detect\<close>, started in
  state \<open>s\<close> with the order responses \<open>os\<close> and the quote responses \<open>ws\<close>, stands when
  it begins its iteration number \<open>n\<close> (counted from 0): the events so far, the state, and
  the responses that are left. It is \<open>None\<close> when the loop does not get that far: \<open>detect\<close>
  has ended before, or is still waiting for a response.
\<close>

fun iteration ::
  "(string \<Rightarrow> rat option) \<Rightarrow> string \<Rightarrow> nat \<Rightarrow> stock_state \<Rightarrow> http_result list \<Rightarrow> http_result list \<Rightarrow>
   (event list \<times> stock_state \<times> http_result list \<times> http_result list) option" where
  "iteration pf symbol 0 s os ws = Some ([], s, os, ws)"
| "iteration pf symbol (Suc n) s os ws =
     (case active_body pf symbol s os of
        Stop evs out s' \<Rightarrow> None
      | Continue evs s' os' \<Rightarrow>
          (case ws of
             [] \<Rightarrow> None
           | w # ws' \<Rightarrow>
               (case watch_stock pf w s' of
                  (s'', Some e) \<Rightarrow> None
                | (s'', None) \<Rightarrow>
                    (case iteration pf symbol n s'' os' ws' of
                       None \<Rightarrow> None
                     | Some (evs', c) \<Rightarrow> Some (evs @ WatchReq symbol # evs', c)))))"

text \<open>Inputs of the concrete runs: the state of a symbol configured with quantity 300
  whose pool holds two tokens, and a generator whose picks repeat with period 10.\<close>

definition two_token_state :: stock_state where
  "two_token_state = (init_state 300)\<lparr>duplicate_order_ids := [''123456789a'', ''bcdefghijk'']\<rparr>"

definition repeating_picks :: "nat \<Rightarrow> nat" where
  "repeating_picks i = i mod 10"

text \<open>A bot with one symbol, and the input of two runs: one whose login is refused, and
  one in which start-up and gate succeed and the quote request of the symbol is refused.\<close>

definition jhapa_bot :: bot where
  "jhapa_bot = \<lparr>stock_states = [(''JHAPA'', init_state 300)], demo_symbol = ''JHAPA''\<rparr>"

definition no_responses :: "string \<Rightarrow> http_result list" where
  "no_responses symbol = []"

definition refused_quotes :: "string \<Rightarrow> http_result list" where
  "refused_quotes symbol = [Http 500 None]"

definition login_accepted :: http_result where
  "login_accepted =
     Http 200 (Some (PDict [(''code'', PStr ''0''), (''watchID'', PStr ''7''),
       (''broker_code'', PStr ''10'')]))"

definition details_accepted :: http_result where
  "details_accepted =
     Http 200 (Some (PDict [(''data'', PDict [(''userids'', PList [PDict
       [(''clientacntid'', PStr ''1''), (''clientCode'', PStr ''C1''),
        (''lastName'', PStr ''K''), (''nic'', PStr ''N1'')]])])]))"

definition refused_login_run :: run_input where
  "refused_login_run =
     \<lparr>cookie_resp = CookieResp 200 (Some ''c00''), picks = repeating_picks,
      login_resp = Http 401 None, details_resp = details_accepted,
      gate_hours = [11], gate_status = [status_response ''Open''], gate_watch = [],
      order_resps = no_responses, watch_resps = no_responses\<rparr>"

definition refused_quote_run :: run_input where
  "refused_quote_run =
     \<lparr>cookie_resp = CookieResp 200 (Some ''c00''), picks = repeating_picks,
      login_resp = login_accepted, details_resp = details_accepted,
      gate_hours = [11], gate_status = [status_response ''Open''], gate_watch = [],
      order_resps = no_responses, watch_resps = refused_quotes\<rparr>"


section \<open>The market gate: properties\<close>

lemma gate_not_before_11:
  "\<forall>h\<in>set hours. h < 11 \<Longrightarrow>
     out_of (wait_market_open pf demo states hours srs wrs) \<noteq> Returned"
proof (induction hours arbitrary: states srs wrs)
  case Nil
  then show ?case by (simp add: out_of_def)
next
  case (Cons h hs)
  then have h: "\<not> 11 \<le> h" and rest: "\<forall>h\<in>set hs. h < 11" by auto
  show ?case
    using h Cons.IH [OF rest]
    by (auto simp: out_of_def split: list.splits sum.splits option.splits prod.splits)
      (metis fst_conv snd_conv)
qed

lemma gate_release_step:
  "11 \<le> h \<Longrightarrow> market_status r = Inr st \<Longrightarrow> st \<noteq> PStr ''Close'' \<Longrightarrow>
     wait_market_open pf demo states (h # hs) (r # srs) wrs = ([StatusReq], Returned, states)"
  by simp

lemma gate_close_step:
  "market_status r = Inr (PStr ''Close'') \<Longrightarrow>
     out_of (wait_market_open pf demo states [h] (r # srs) wrs) \<noteq> Returned"
  by (simp add: out_of_def split: list.splits sum.splits option.splits prod.splits)

lemma market_status_response: "market_status (status_response v) = Inr (PStr v)"
  by (simp add: market_status_def status_response_def)

lemma watch_fields_error_indep:
  "snd (watch_fields pf d s) = snd (watch_fields pf d t)"
  unfolding watch_fields_def
  by (simp add: Let_def split: sum.splits)

lemma watch_stock_error_indep:
  "snd (watch_stock pf w s) = snd (watch_stock pf w t)"
proof -
  have "snd (case watch_fields pf d s of (s', None) \<Rightarrow> (s', None) | (s', Some e) \<Rightarrow> (s', Some market_closed))
      = snd (case watch_fields pf d t of (s', None) \<Rightarrow> (s', None) | (s', Some e) \<Rightarrow> (s', Some market_closed))"
    for d
    using watch_fields_error_indep [of pf d s t]
    by (cases "watch_fields pf d s"; cases "watch_fields pf d t") (auto split: option.splits)
  then show ?thesis
    by (simp add: watch_stock_def split: http_result.splits option.splits sum.splits)
qed

text \<open>An iteration that does not return polls the demo symbol and starts over.\<close>

lemma gate_waiting_step:
  assumes "market_status r = Inr st" and "\<not> (11 \<le> h \<and> st \<noteq> PStr ''Close'')"
    and "map_of states demo = Some s" and "watch_stock pf w s = (s', None)"
  shows "wait_market_open pf demo states (h # hs) (r # srs) (w # wrs) =
     (StatusReq # WatchReq demo # evs_of (wait_market_open pf demo (AList.update demo s' states) hs srs wrs),
      out_of (wait_market_open pf demo (AList.update demo s' states) hs srs wrs),
      state_of (wait_market_open pf demo (AList.update demo s' states) hs srs wrs))"
  using assms by (auto simp: evs_of_def out_of_def state_of_def split: prod.splits)

text \<open>If the gate returns, it does so in its iteration number \<open>n\<close> (after \<open>n\<close> polls of
  the demo symbol), and that iteration read an hour of at least 11 and a status other than
  \<open>Close\<close>; no earlier iteration did.\<close>

lemma gate_returns_only_when:
  "out_of (wait_market_open pf demo states hours srs wrs) = Returned \<Longrightarrow>
     \<exists>n. n < length hours \<and> n < length srs \<and> 11 \<le> hours ! n \<and>
         (\<exists>st. market_status (srs ! n) = Inr st \<and> st \<noteq> PStr ''Close'') \<and>
         (\<forall>m<n. hours ! m < 11 \<or> market_status (srs ! m) = Inr (PStr ''Close'')) \<and>
         evs_of (wait_market_open pf demo states hours srs wrs)
           = concat (replicate n [StatusReq, WatchReq demo]) @ [StatusReq]"
proof (induction hours arbitrary: states srs wrs)
  case Nil
  then show ?case by (simp add: out_of_def)
next
  case (Cons h hs)
  from Cons.prems obtain r srs' where srs: "srs = r # srs'"
    by (cases srs) (auto simp: out_of_def)
  from Cons.prems srs obtain st where st: "market_status r = Inr st"
    by (cases "market_status r") (auto simp: out_of_def)
  show ?case
  proof (cases "11 \<le> h \<and> st \<noteq> PStr ''Close''")
    case True
    with srs st show ?thesis
      by (intro exI [of _ 0]) (simp add: evs_of_def)
  next
    case False
    from Cons.prems srs st False obtain s where s: "map_of states demo = Some s"
      by (cases "map_of states demo") (auto simp: out_of_def)
    from Cons.prems srs st False s obtain w wrs' where wrs: "wrs = w # wrs'"
      by (cases wrs) (auto simp: out_of_def)
    obtain s' eo where w: "watch_stock pf w s = (s', eo)" by (cases "watch_stock pf w s")
    from Cons.prems srs st False s wrs w have eo: "eo = None"
      by (cases eo) (auto simp: out_of_def)
    note step = gate_waiting_step [OF st False s w [unfolded eo], of hs srs' wrs']
    from Cons.prems
    have "out_of (wait_market_open pf demo (AList.update demo s' states) hs srs' wrs') = Returned"
      unfolding srs wrs step by (simp add: out_of_def)
    from Cons.IH [OF this] obtain n where n: "n < length hs" "n < length srs'" "11 \<le> hs ! n"
      "\<exists>st. market_status (srs' ! n) = Inr st \<and> st \<noteq> PStr ''Close''"
      "\<forall>m<n. hs ! m < 11 \<or> market_status (srs' ! m) = Inr (PStr ''Close'')"
      "evs_of (wait_market_open pf demo (AList.update demo s' states) hs srs' wrs')
           = concat (replicate n [StatusReq, WatchReq demo]) @ [StatusReq]"
      by blast
    have first: "h < 11 \<or> market_status r = Inr (PStr ''Close'')"
      using False st by auto
    have "\<forall>m<Suc n. (h # hs) ! m < 11 \<or> market_status ((r # srs') ! m) = Inr (PStr ''Close'')"
      using n(5) first by (auto simp: less_Suc_eq_0_disj)
    with n show ?thesis
      unfolding srs wrs step
      by (intro exI [of _ "Suc n"]) (simp add: evs_of_def)
  qed
qed

text \<open>The gate returns in the first iteration that reads an hour of at least 11 and a
  status other than \<open>Close\<close>, when the requests of the iterations before it were answered
  without an exception.\<close>

lemma gate_returns_at_first:
  assumes "n < length hours" and "n < length srs" and "n \<le> length wrs"
    and "map_of states demo = Some s0"
    and "\<forall>m<n. hours ! m < 11 \<or> market_status (srs ! m) = Inr (PStr ''Close'')"
    and "\<forall>m<n. \<exists>st. market_status (srs ! m) = Inr st"
    and "\<forall>m<n. snd (watch_stock pf (wrs ! m) s0) = None"
    and "11 \<le> hours ! n" and "market_status (srs ! n) = Inr st" and "st \<noteq> PStr ''Close''"
  shows "out_of (wait_market_open pf demo states hours srs wrs) = Returned \<and>
         evs_of (wait_market_open pf demo states hours srs wrs)
           = concat (replicate n [StatusReq, WatchReq demo]) @ [StatusReq]"
  using assms
proof (induction n arbitrary: hours srs wrs states s0)
  case 0
  then obtain h hs r srs' where "hours = h # hs" "srs = r # srs'"
    by (cases hours; cases srs) auto
  with 0 show ?case by (simp add: out_of_def evs_of_def)
next
  case (Suc n)
  then obtain h hs r srs' w wrs' where l: "hours = h # hs" "srs = r # srs'" "wrs = w # wrs'"
    by (cases hours; cases srs; cases wrs) auto
  from Suc.prems(6) l obtain st0 where st0: "market_status r = Inr st0" by auto
  from Suc.prems(5) l st0 have nr: "\<not> (11 \<le> h \<and> st0 \<noteq> PStr ''Close'')" by auto
  obtain s' eo where w: "watch_stock pf w s0 = (s', eo)" by (cases "watch_stock pf w s0")
  from Suc.prems(7) l w have eo: "eo = None" by auto
  note step = gate_waiting_step [OF st0 nr Suc.prems(4) w [unfolded eo], of hs srs' wrs']
  have m: "map_of (AList.update demo s' states) demo = Some s'"
    by (simp add: update_conv')
  have ok: "\<forall>m<n. snd (watch_stock pf (wrs' ! m) s') = None"
    using Suc.prems(7) l watch_stock_error_indep [of pf _ s' s0] by auto
  have "out_of (wait_market_open pf demo (AList.update demo s' states) hs srs' wrs') = Returned \<and>
         evs_of (wait_market_open pf demo (AList.update demo s' states) hs srs' wrs')
           = concat (replicate n [StatusReq, WatchReq demo]) @ [StatusReq]"
    using Suc.prems l
    by (intro Suc.IH [OF _ _ _ m _ _ ok]) auto
  then show ?case
    unfolding l step by (simp add: out_of_def evs_of_def)
qed

text \<open>
  Claim C7. The broker's status of a closed market is the string \<open>Close\<close>, the one the
  source compares with. \<open>hours\<close> are the readings of the exchange-local clock, one per
  iteration of the gate, and \<open>srs\<close> the answers to its status requests.

  \<^item> The gate never releases below hour 11: when it returns, it returns in an iteration
    \<open>n\<close> that read an hour of at least 11 and a status that is not \<open>Close\<close>, after
    exactly \<open>n\<close> iterations that each read an hour below 11 or the status \<open>Close\<close> and
    polled the demo symbol. In particular it does not return while every reading is below
    11, whatever the status.
  \<^item> The gate releases once the hour is at least 11 and the status is not \<open>Close\<close>: if
    iteration \<open>n\<close> is the first to read such an hour and status, and the status and quote
    requests before it were answered without an exception (a quote is accepted or refused
    whatever the state it is written to), the gate returns in iteration \<open>n\<close>.
\<close>

theorem gate_release_condition:
  "(out_of (wait_market_open pf demo states hours srs wrs) = Returned \<longrightarrow>
      (\<exists>k. k < length hours \<and> k < length srs \<and> 11 \<le> hours ! k \<and>
         (\<exists>st. market_status (srs ! k) = Inr st \<and> st \<noteq> PStr ''Close'') \<and>
         (\<forall>m<k. hours ! m < 11 \<or> market_status (srs ! m) = Inr (PStr ''Close'')) \<and>
         evs_of (wait_market_open pf demo states hours srs wrs)
           = concat (replicate k [StatusReq, WatchReq demo]) @ [StatusReq])) \<and>
   ((\<forall>h\<in>set hours. h < 11) \<longrightarrow>
      out_of (wait_market_open pf demo states hours srs wrs) \<noteq> Returned) \<and>
   (n < length hours \<and> n < length srs \<and> n \<le> length wrs \<and> map_of states demo = Some s0 \<and>
    (\<forall>m<n. hours ! m < 11 \<or> market_status (srs ! m) = Inr (PStr ''Close'')) \<and>
    (\<forall>m<n. \<exists>st. market_status (srs ! m) = Inr st) \<and>
    (\<forall>m<n. snd (watch_stock pf (wrs ! m) s0) = None) \<and>
    11 \<le> hours ! n \<and> market_status (srs ! n) = Inr st \<and> st \<noteq> PStr ''Close'' \<longrightarrow>
      out_of (wait_market_open pf demo states hours srs wrs) = Returned \<and>
      evs_of (wait_market_open pf demo states hours srs wrs)
        = concat (replicate n [StatusReq, WatchReq demo]) @ [StatusReq])"
proof (intro conjI impI)
  assume "out_of (wait_market_open pf demo states hours srs wrs) = Returned"
  then show "\<exists>k. k < length hours \<and> k < length srs \<and> 11 \<le> hours ! k \<and>
         (\<exists>st. market_status (srs ! k) = Inr st \<and> st \<noteq> PStr ''Close'') \<and>
         (\<forall>m<k. hours ! m < 11 \<or> market_status (srs ! m) = Inr (PStr ''Close'')) \<and>
         evs_of (wait_market_open pf demo states hours srs wrs)
           = concat (replicate k [StatusReq, WatchReq demo]) @ [StatusReq]"
    by (rule gate_returns_only_when)
next
  assume "\<forall>h\<in>set hours. h < 11"
  then show "out_of (wait_market_open pf demo states hours srs wrs) \<noteq> Returned"
    by (rule gate_not_before_11)
next
  assume a: "n < length hours \<and> n < length srs \<and> n \<le> length wrs \<and> map_of states demo = Some s0 \<and>
    (\<forall>m<n. hours ! m < 11 \<or> market_status (srs ! m) = Inr (PStr ''Close'')) \<and>
    (\<forall>m<n. \<exists>st. market_status (srs ! m) = Inr st) \<and>
    (\<forall>m<n. snd (watch_stock pf (wrs ! m) s0) = None) \<and>
    11 \<le> hours ! n \<and> market_status (srs ! n) = Inr st \<and> st \<noteq> PStr ''Close''"
  then have r: "out_of (wait_market_open pf demo states hours srs wrs) = Returned \<and>
      evs_of (wait_market_open pf demo states hours srs wrs)
        = concat (replicate n [StatusReq, WatchReq demo]) @ [StatusReq]"
    by (intro gate_returns_at_first [where ?s0.0 = s0 and st = st]) simp_all
  from r show "out_of (wait_market_open pf demo states hours srs wrs) = Returned" by simp
  from r show "evs_of (wait_market_open pf demo states hours srs wrs)
        = concat (replicate n [StatusReq, WatchReq demo]) @ [StatusReq]" by simp
qed

text \<open>At 10 o'clock with status \<open>Open\<close> the gate polls the demo symbol and checks
  again; at 11 with status \<open>Open\<close> it returns. With one reading of 10 it is still
  waiting, and at 11 with status \<open>Close\<close> it is still waiting.\<close>

theorem gate_release_condition_witness:
  "out_of (wait_market_open decimal_float ''JHAPA'' [(''JHAPA'', init_state 300)] [10, 11]
      [status_response ''Open'', status_response ''Open'']
      [quote_response ''95.0'' ''100.0'' ''96'' ''-5'' ''110.0'']) = Returned \<and>
   evs_of (wait_market_open decimal_float ''JHAPA'' [(''JHAPA'', init_state 300)] [10, 11]
      [status_response ''Open'', status_response ''Open'']
      [quote_response ''95.0'' ''100.0'' ''96'' ''-5'' ''110.0''])
     = [StatusReq, WatchReq ''JHAPA'', StatusReq] \<and>
   out_of (wait_market_open decimal_float ''JHAPA'' [(''JHAPA'', init_state 300)] [10]
      [status_response ''Open''] []) \<noteq> Returned \<and>
   out_of (wait_market_open decimal_float ''JHAPA'' [(''JHAPA'', init_state 300)] [11]
      [status_response ''Close''] []) \<noteq> Returned"
  using gate_release_condition [where hours = "[10, 11]" and pf = decimal_float
      and demo = "''JHAPA''" and states = "[(''JHAPA'', init_state 300)]"
      and srs = "[status_response ''Open'', status_response ''Open'']"
      and wrs = "[quote_response ''95.0'' ''100.0'' ''96'' ''-5'' ''110.0'']"
      and n = 1 and ?s0.0 = "init_state 300" and st = "PStr ''Open''"]
    gate_release_condition [where hours = "[10]" and pf = decimal_float
      and demo = "''JHAPA''" and states = "[(''JHAPA'', init_state 300)]"
      and srs = "[status_response ''Open'']" and wrs = "[]"
      and n = 0 and ?s0.0 = "init_state 300" and st = "PStr ''Open''"]
    gate_release_condition [where hours = "[11]" and pf = decimal_float
      and demo = "''JHAPA''" and states = "[(''JHAPA'', init_state 300)]"
      and srs = "[status_response ''Close'']" and wrs = "[]"
      and n = 0 and ?s0.0 = "init_state 300" and st = "PStr ''Close''"]
  by (simp add: market_status_response watch_stock_def quote_response_def watch_fields_def
      decimal_float_def unsigned_decimal_def digit_of_def init_state_def drop_commas_def
      py_int_def)

text \<open>
  Claim C10. With status code 200, \<open>market_status\<close> returns \<open>None\<close> and raises nothing when
  the payload cannot be decoded, when it has no \<open>data\<close>, and when \<open>data\<close> has no
  \<open>status\<close>. An iteration of the gate that reads an hour of at least 11 and gets \<open>None\<close>
  returns: the trading loops are released although no status was determined.
\<close>

theorem gate_released_on_unparsed_status:
  "market_status (Http 200 None) = Inr PNone \<and>
   (getitem j ''data'' = Inl e \<longrightarrow> market_status (Http 200 (Some j)) = Inr PNone) \<and>
   (getitem j ''data'' = Inr d \<and> getitem d ''status'' = Inl e \<longrightarrow>
      market_status (Http 200 (Some j)) = Inr PNone) \<and>
   (11 \<le> h \<and> market_status r = Inr PNone \<longrightarrow>
      wait_market_open pf demo states (h # hs) (r # srs) wrs = ([StatusReq], Returned, states))"
  by (simp add: market_status_def)

theorem gate_released_on_unparsed_status_witness:
  "market_status (Http 200 None) = Inr PNone \<and>
   market_status (Http 200 (Some (PList []))) = Inr PNone \<and>
   market_status (Http 200 (Some (PDict [(''data'', PDict [])]))) = Inr PNone \<and>
   wait_market_open decimal_float ''JHAPA'' [(''JHAPA'', init_state 300)] [11] [Http 200 None] []
     = ([StatusReq], Returned, [(''JHAPA'', init_state 300)])"
  using gate_released_on_unparsed_status [where j = "PList []" and e = TypeError and h = 11
      and r = "Http 200 None" and pf = decimal_float and demo = "''JHAPA''"
      and states = "[(''JHAPA'', init_state 300)]" and hs = "[]" and srs = "[]" and wrs = "[]"]
    gate_released_on_unparsed_status [where j = "PDict [(''data'', PDict [])]" and e = KeyError
      and d = "PDict []" and h = 11
      and r = "Http 200 None" and pf = decimal_float and demo = "''JHAPA''"
      and states = "[(''JHAPA'', init_state 300)]" and hs = "[]" and srs = "[]" and wrs = "[]"]
  by simp

section \<open>The dispatch loop: one iteration, the loop, the run\<close>

text \<open>\<open>watch_stock\<close> writes the five quote fields and nothing else.\<close>

lemma with_quote_self: "with_quote s s = s"
  by (simp add: with_quote_def)

lemma watch_fields_frame: "with_quote (fst (watch_fields pf d s)) s = fst (watch_fields pf d s)"
  unfolding watch_fields_def with_quote_def
  by (simp add: Let_def split: sum.splits)

lemma watch_stock_frame: "with_quote (fst (watch_stock pf r s)) s = fst (watch_stock pf r s)"
proof (cases r)
  case ConnFailed
  then show ?thesis by (simp add: watch_stock_def with_quote_self)
next
  case (Http status body)
  show ?thesis
  proof (cases "status = 200")
    case False
    with Http show ?thesis by (simp add: watch_stock_def with_quote_self)
  next
    case True
    show ?thesis
    proof (cases body)
      case None
      with Http True show ?thesis by (simp add: watch_stock_def with_quote_self)
    next
      case (Some j)
      show ?thesis
      proof (cases "getitem j ''data''")
        case (Inl e)
        with Http True Some show ?thesis by (simp add: watch_stock_def with_quote_self)
      next
        case (Inr d)
        have "fst (watch_stock pf r s) = fst (watch_fields pf d s)"
          using Http True Some Inr
          by (simp add: watch_stock_def split: prod.splits option.splits)
        then show ?thesis by (simp add: watch_fields_frame)
      qed
    qed
  qed
qed

lemma watch_stock_keeps:
  assumes "watch_stock pf r s = (s', e)"
  shows "initial_per s' = initial_per s" and "circuit_per s' = circuit_per s"
    and "remain_per s' = remain_per s" and "applied_qnty s' = applied_qnty s"
    and "duplicate_order_id s' = duplicate_order_id s"
    and "duplicate_order_ids s' = duplicate_order_ids s"
    and "order_id_index s' = order_id_index s"
    and "ltp_p s' = ltp_p s" and "high_price s' = high_price s"
proof -
  have eq: "s' = with_quote s' s"
    using watch_stock_frame [of pf r s] assms by simp
  show "initial_per s' = initial_per s" by (subst eq) (simp add: with_quote_def)
  show "circuit_per s' = circuit_per s" by (subst eq) (simp add: with_quote_def)
  show "remain_per s' = remain_per s" by (subst eq) (simp add: with_quote_def)
  show "applied_qnty s' = applied_qnty s" by (subst eq) (simp add: with_quote_def)
  show "duplicate_order_id s' = duplicate_order_id s" by (subst eq) (simp add: with_quote_def)
  show "duplicate_order_ids s' = duplicate_order_ids s" by (subst eq) (simp add: with_quote_def)
  show "order_id_index s' = order_id_index s" by (subst eq) (simp add: with_quote_def)
  show "ltp_p s' = ltp_p s" by (subst eq) (simp add: with_quote_def)
  show "high_price s' = high_price s" by (subst eq) (simp add: with_quote_def)
qed

text \<open>The price assignments write \<open>ltp_p\<close> and \<open>high_price\<close> only.\<close>

lemma set_prices_keeps:
  assumes "set_prices pf s = Inr s2"
  shows "initial_per s2 = initial_per s" and "circuit_per s2 = circuit_per s"
    and "remain_per s2 = remain_per s" and "applied_qnty s2 = applied_qnty s"
    and "duplicate_order_id s2 = duplicate_order_id s"
    and "duplicate_order_ids s2 = duplicate_order_ids s"
    and "order_id_index s2 = order_id_index s"
    and "percent s2 = percent s" and "circuit_price s2 = circuit_price s"
    and "ltp s2 = ltp s" and "opening_price s2 = opening_price s"
    and "previous_day_closing s2 = previous_day_closing s"
  using assms by (auto simp: set_prices_def Let_def split: sum.splits)

text \<open>What one iteration does, case by case: the trade price does not parse; the
  percent change is not above \<open>initial_per\<close>; the pool is used up; the gap to the
  ceiling is at most 2.1; the gap is larger.\<close>

lemma active_body_set_prices_Inl:
  "set_prices pf s = Inl e \<Longrightarrow> active_body pf symbol s os = Stop [LogError e] Returned s"
  by (simp add: active_body_def)

lemma active_body_not_eligible:
  "set_prices pf s = Inr s2 \<Longrightarrow> \<not> initial_per s < percent s \<Longrightarrow>
     active_body pf symbol s os = Continue [] s2 os"
  by (auto simp: active_body_def set_prices_def Let_def split: sum.splits)

lemma active_body_exhausted:
  "set_prices pf s = Inr s2 \<Longrightarrow> initial_per s < percent s \<Longrightarrow>
   length (duplicate_order_ids s) \<le> order_id_index s \<Longrightarrow>
     active_body pf symbol s os = Stop [LogError IndexError] Returned s2"
  by (auto simp: active_body_def set_prices_def draw_token_def Let_def split: sum.splits)

lemma active_body_final:
  assumes "set_prices pf s = Inr s2" and "initial_per s < percent s"
    and "order_id_index s < length (duplicate_order_ids s)"
    and "circuit_per s - percent s \<le> 21 / 10"
  shows "active_body pf symbol s os =
     Stop (OrderReq symbol (applied_qnty s) (circuit_price s)
             (Some (duplicate_order_ids s ! order_id_index s)) (ltp_p s2)
           # (case os of [] \<Rightarrow> [] | r # os' \<Rightarrow>
                (case place_buy_order r of None \<Rightarrow> [] | Some e \<Rightarrow> [LogError e])))
          (if os = [] then Blocked else Returned)
          (s2\<lparr>duplicate_order_id := Some (duplicate_order_ids s ! order_id_index s),
              remain_per := circuit_per s - percent s,
              high_price := circuit_price s\<rparr>)"
  using assms set_prices_keeps [OF assms(1)]
  by (simp add: active_body_def draw_token_def order_req_def Let_def
      split: list.splits option.splits)

lemma active_body_probe:
  assumes "set_prices pf s = Inr s2" and "initial_per s < percent s"
    and "order_id_index s < length (duplicate_order_ids s)"
    and "\<not> circuit_per s - percent s \<le> 21 / 10"
  shows "active_body pf symbol s os =
     (let tok = Some (duplicate_order_ids s ! order_id_index s);
          s4 = s2\<lparr>duplicate_order_id := tok, remain_per := circuit_per s - percent s\<rparr>;
          req = OrderReq symbol 10 (high_price s2) tok (ltp_p s2)
      in case os of
           [] \<Rightarrow> Stop [req] Blocked s4
         | r # os' \<Rightarrow>
             (case place_buy_order r of
                Some e \<Rightarrow> Stop [req, LogError e] Returned s4
              | None \<Rightarrow>
                  Continue [req]
                    (s4\<lparr>initial_per := percent s, order_id_index := Suc (order_id_index s)\<rparr>) os'))"
  using assms set_prices_keeps [OF assms(1)]
  by (simp add: active_body_def draw_token_def order_req_def Let_def
      split: list.splits option.splits)

lemma active_body_cases [case_names parse skip exhausted final probe]:
  obtains
    (parse) e where "set_prices pf s = Inl e"
  | (skip) s2 where "set_prices pf s = Inr s2" "\<not> initial_per s < percent s"
  | (exhausted) s2 where "set_prices pf s = Inr s2" "initial_per s < percent s"
      "length (duplicate_order_ids s) \<le> order_id_index s"
  | (final) s2 where "set_prices pf s = Inr s2" "initial_per s < percent s"
      "order_id_index s < length (duplicate_order_ids s)" "circuit_per s - percent s \<le> 21 / 10"
  | (probe) s2 where "set_prices pf s = Inr s2" "initial_per s < percent s"
      "order_id_index s < length (duplicate_order_ids s)" "\<not> circuit_per s - percent s \<le> 21 / 10"
proof (cases "set_prices pf s")
  case (Inl e)
  then show ?thesis by (rule parse)
next
  case (Inr s2)
  then show ?thesis
    using skip exhausted final probe by (meson not_le)
qed

text \<open>What an iteration that ends \<open>detect\<close>, and one that goes on, can have done to
  the state and to the trace.\<close>

lemma active_body_Stop:
  assumes "active_body pf symbol s os = Stop evs out s'"
  shows "initial_per s' = initial_per s \<and> circuit_per s' = circuit_per s \<and>
         applied_qnty s' = applied_qnty s \<and> duplicate_order_ids s' = duplicate_order_ids s \<and>
         order_id_index s' = order_id_index s \<and> WatchReq symbol \<notin> set evs \<and>
         (order_tokens evs = [] \<or>
          order_id_index s < length (duplicate_order_ids s) \<and>
          order_tokens evs = [Some (duplicate_order_ids s ! order_id_index s)])"
proof (cases pf s rule: active_body_cases)
  case (parse e)
  with assms show ?thesis by (auto simp: active_body_set_prices_Inl order_tokens_def)
next
  case (skip s2)
  with assms show ?thesis by (simp add: active_body_not_eligible)
next
  case (exhausted s2)
  with assms show ?thesis
    by (auto simp: active_body_exhausted order_tokens_def set_prices_keeps)
next
  case (final s2)
  from active_body_final [OF final, of symbol os] assms
  show ?thesis
    using final(3) set_prices_keeps [OF final(1)]
    by (auto simp: order_tokens_def split: list.splits option.splits)
next
  case (probe s2)
  from active_body_probe [OF probe, of symbol os] assms
  show ?thesis
    using probe(3) set_prices_keeps [OF probe(1)]
    by (auto simp: order_tokens_def Let_def split: list.splits option.splits)
qed

lemma active_body_Continue:
  assumes "active_body pf symbol s os = Continue evs s' os'"
  shows "circuit_per s' = circuit_per s \<and> applied_qnty s' = applied_qnty s \<and>
         duplicate_order_ids s' = duplicate_order_ids s \<and>
         (evs = [] \<and> os' = os \<and> \<not> initial_per s < percent s \<and>
            initial_per s' = initial_per s \<and> order_id_index s' = order_id_index s
          \<or>
          (\<exists>r. os = r # os' \<and> place_buy_order r = None) \<and> initial_per s < percent s \<and>
            initial_per s' = percent s \<and>
            order_id_index s < length (duplicate_order_ids s) \<and>
            order_id_index s' = Suc (order_id_index s) \<and>
            evs = [OrderReq symbol 10 (high_price s') (Some (duplicate_order_ids s ! order_id_index s))
                     (ltp_p s')])"
proof (cases pf s rule: active_body_cases)
  case (parse e)
  with assms show ?thesis by (simp add: active_body_set_prices_Inl)
next
  case (skip s2)
  with assms show ?thesis by (auto simp: active_body_not_eligible set_prices_keeps)
next
  case (exhausted s2)
  with assms show ?thesis by (simp add: active_body_exhausted)
next
  case (final s2)
  from active_body_final [OF final, of symbol os] assms
  show ?thesis by simp
next
  case (probe s2)
  from active_body_probe [OF probe, of symbol os] assms
  show ?thesis
    using probe(2,3) set_prices_keeps [OF probe(1)]
    by (auto simp: Let_def split: list.splits option.splits)
qed

text \<open>The second loop is unfolded by the four lemmas below.\<close>

declare active_loop.simps [simp del]

lemma active_loop_Stop:
  "active_body pf symbol s os = Stop evs out s' \<Longrightarrow>
     active_loop pf symbol s os ws = (evs, out, s')"
  by (subst active_loop.simps) simp

lemma active_loop_Nil:
  "active_body pf symbol s os = Continue evs s' os' \<Longrightarrow>
     active_loop pf symbol s os [] = (evs @ [WatchReq symbol], Blocked, s')"
  by (subst active_loop.simps) simp

lemma active_loop_watch_failed:
  "active_body pf symbol s os = Continue evs s' os' \<Longrightarrow> watch_stock pf w s' = (s'', Some e) \<Longrightarrow>
     active_loop pf symbol s os (w # ws) = (evs @ [WatchReq symbol, LogError e], Returned, s'')"
  by (subst active_loop.simps) simp

lemma active_loop_watch_ok:
  "active_body pf symbol s os = Continue evs s' os' \<Longrightarrow> watch_stock pf w s' = (s'', None) \<Longrightarrow>
     active_loop pf symbol s os (w # ws) =
       (evs @ WatchReq symbol # evs_of (active_loop pf symbol s'' os' ws),
        out_of (active_loop pf symbol s'' os' ws), state_of (active_loop pf symbol s'' os' ws))"
  by (subst active_loop.simps) (simp add: evs_of_def out_of_def state_of_def split: prod.splits)

lemma active_loop_induct [case_names Stop Blocked Failed Polled]:
  assumes stop: "\<And>s os ws evs out s'.
      active_body pf symbol s os = Stop evs out s' \<Longrightarrow> P s os ws (evs, out, s')"
    and blocked: "\<And>s os evs s' os'.
      active_body pf symbol s os = Continue evs s' os' \<Longrightarrow>
        P s os [] (evs @ [WatchReq symbol], Blocked, s')"
    and failed: "\<And>s os w ws evs s' os' s'' e.
      active_body pf symbol s os = Continue evs s' os' \<Longrightarrow> watch_stock pf w s' = (s'', Some e) \<Longrightarrow>
        P s os (w # ws) (evs @ [WatchReq symbol, LogError e], Returned, s'')"
    and polled: "\<And>s os w ws evs s' os' s'' evs' out sf.
      active_body pf symbol s os = Continue evs s' os' \<Longrightarrow> watch_stock pf w s' = (s'', None) \<Longrightarrow>
      active_loop pf symbol s'' os' ws = (evs', out, sf) \<Longrightarrow>
      P s'' os' ws (evs', out, sf) \<Longrightarrow>
        P s os (w # ws) (evs @ WatchReq symbol # evs', out, sf)"
  shows "P s os ws (active_loop pf symbol s os ws)"
proof (induction ws arbitrary: s os)
  case Nil
  show ?case
  proof (cases "active_body pf symbol s os")
    case (Stop evs out s')
    then show ?thesis using stop by (simp add: active_loop_Stop)
  next
    case (Continue evs s' os')
    then show ?thesis using blocked by (simp add: active_loop_Nil)
  qed
next
  case (Cons w ws)
  show ?case
  proof (cases "active_body pf symbol s os")
    case (Stop evs out s')
    then show ?thesis using stop by (simp add: active_loop_Stop)
  next
    case (Continue evs s' os')
    obtain s'' eo where w: "watch_stock pf w s' = (s'', eo)" by (cases "watch_stock pf w s'")
    show ?thesis
    proof (cases eo)
      case None
      obtain evs' out sf where r: "active_loop pf symbol s'' os' ws = (evs', out, sf)"
        by (cases "active_loop pf symbol s'' os' ws")
      have "P s'' os' ws (evs', out, sf)" using Cons.IH [of s'' os'] r by simp
      from polled [OF Continue _ r this] w None
      show ?thesis
        using Continue r by (simp add: active_loop_watch_ok evs_of_def out_of_def state_of_def)
    next
      case (Some e)
      with w Continue failed show ?thesis by (simp add: active_loop_watch_failed)
    qed
  qed
qed

lemma active_loop_keeps:
  "circuit_per (state_of (active_loop pf symbol s os ws)) = circuit_per s \<and>
   applied_qnty (state_of (active_loop pf symbol s os ws)) = applied_qnty s \<and>
   duplicate_order_ids (state_of (active_loop pf symbol s os ws)) = duplicate_order_ids s"
proof (rule active_loop_induct
    [where P = "\<lambda>s os ws r. circuit_per (state_of r) = circuit_per s \<and>
       applied_qnty (state_of r) = applied_qnty s \<and>
       duplicate_order_ids (state_of r) = duplicate_order_ids s"], goal_cases)
  case (1 s os ws evs out s')
  then show ?case using active_body_Stop [OF 1] by (simp add: state_of_def)
next
  case (2 s os evs s' os')
  then show ?case using active_body_Continue [OF 2] by (simp add: state_of_def)
next
  case (3 s os w ws evs s' os' s'' e)
  then show ?case using active_body_Continue [OF 3(1)] watch_stock_keeps [OF 3(2)]
    by (simp add: state_of_def)
next
  case (4 s os w ws evs s' os' s'' evs' out sf)
  then show ?case using active_body_Continue [OF 4(1)] watch_stock_keeps [OF 4(2)]
    by (simp add: state_of_def)
qed

lemma active_loop_initial_per_mono:
  "initial_per s \<le> initial_per (state_of (active_loop pf symbol s os ws))"
proof (rule active_loop_induct
    [where P = "\<lambda>s os ws r. initial_per s \<le> initial_per (state_of r)"], goal_cases)
  case (1 s os ws evs out s')
  then show ?case using active_body_Stop [OF 1] by (simp add: state_of_def)
next
  case (2 s os evs s' os')
  then show ?case using active_body_Continue [OF 2] by (auto simp: state_of_def)
next
  case (3 s os w ws evs s' os' s'' e)
  then show ?case using active_body_Continue [OF 3(1)] watch_stock_keeps [OF 3(2)]
    by (auto simp: state_of_def)
next
  case (4 s os w ws evs s' os' s'' evs' out sf)
  then show ?case using active_body_Continue [OF 4(1)] watch_stock_keeps [OF 4(2)]
    by (auto simp: state_of_def)
qed

lemma active_loop_cursor:
  "order_id_index s \<le> order_id_index (state_of (active_loop pf symbol s os ws)) \<and>
   (order_id_index s \<le> length (duplicate_order_ids s) \<longrightarrow>
      order_id_index (state_of (active_loop pf symbol s os ws)) \<le> length (duplicate_order_ids s))"
proof (rule active_loop_induct
    [where P = "\<lambda>s os ws r. order_id_index s \<le> order_id_index (state_of r) \<and>
       (order_id_index s \<le> length (duplicate_order_ids s) \<longrightarrow>
          order_id_index (state_of r) \<le> length (duplicate_order_ids s))"], goal_cases)
  case (1 s os ws evs out s')
  then show ?case using active_body_Stop [OF 1] by (simp add: state_of_def)
next
  case (2 s os evs s' os')
  then show ?case using active_body_Continue [OF 2] by (auto simp: state_of_def)
next
  case (3 s os w ws evs s' os' s'' e)
  then show ?case using active_body_Continue [OF 3(1)] watch_stock_keeps [OF 3(2)]
    by (auto simp: state_of_def)
next
  case (4 s os w ws evs s' os' s'' evs' out sf)
  then show ?case using active_body_Continue [OF 4(1)] watch_stock_keeps [OF 4(2)]
    by (auto simp: state_of_def)
qed


text \<open>The tokens of the orders of a run are consecutive entries of the pool, from the
  cursor on.\<close>

lemma order_tokens_append: "order_tokens (xs @ ys) = order_tokens xs @ order_tokens ys"
  by (simp add: order_tokens_def)

lemma order_tokens_simps:
  "order_tokens [] = []"
  "order_tokens (WatchReq symbol # evs) = order_tokens evs"
  "order_tokens (LogError e # evs) = order_tokens evs"
  "order_tokens (StatusReq # evs) = order_tokens evs"
  "order_tokens (OrderReq symbol q p t m # evs) = t # order_tokens evs"
  by (simp_all add: order_tokens_def)

lemma take_Suc_drop: "i < length xs \<Longrightarrow> take (Suc k) (drop i xs) = xs ! i # take k (drop (Suc i) xs)"
  by (simp add: Cons_nth_drop_Suc [symmetric])

lemma active_loop_tokens:
  "\<exists>k. order_tokens (evs_of (active_loop pf symbol s os ws))
         = map Some (take k (drop (order_id_index s) (duplicate_order_ids s))) \<and>
       (k = 0 \<or> order_id_index s + k \<le> length (duplicate_order_ids s))"
proof (rule active_loop_induct
    [where P = "\<lambda>s os ws r. \<exists>k. order_tokens (evs_of r)
         = map Some (take k (drop (order_id_index s) (duplicate_order_ids s))) \<and>
       (k = 0 \<or> order_id_index s + k \<le> length (duplicate_order_ids s))"], goal_cases)
  case (1 s os ws evs out s')
  from active_body_Stop [OF 1]
  consider "order_tokens evs = []"
    | "order_id_index s < length (duplicate_order_ids s)"
      "order_tokens evs = [Some (duplicate_order_ids s ! order_id_index s)]"
    by blast
  then show ?case
  proof cases
    case 1
    then show ?thesis by (intro exI [of _ 0]) (simp add: evs_of_def)
  next
    case 2
    then show ?thesis
      by (intro exI [of _ 1]) (simp add: evs_of_def take_Suc_drop)
  qed
next
  case (2 s os evs s' os')
  from active_body_Continue [OF 2]
  consider "evs = []"
    | "order_id_index s < length (duplicate_order_ids s)"
      "order_tokens evs = [Some (duplicate_order_ids s ! order_id_index s)]"
    by (auto simp: order_tokens_simps)
  then show ?case
  proof cases
    case 1
    then show ?thesis by (intro exI [of _ 0]) (simp add: evs_of_def order_tokens_simps)
  next
    case 2
    then show ?thesis
      by (intro exI [of _ 1])
        (simp add: evs_of_def order_tokens_append order_tokens_simps take_Suc_drop)
  qed
next
  case (3 s os w ws evs s' os' s'' e)
  from active_body_Continue [OF 3(1)]
  consider "evs = []"
    | "order_id_index s < length (duplicate_order_ids s)"
      "order_tokens evs = [Some (duplicate_order_ids s ! order_id_index s)]"
    by (auto simp: order_tokens_simps)
  then show ?case
  proof cases
    case 1
    then show ?thesis by (intro exI [of _ 0]) (simp add: evs_of_def order_tokens_simps)
  next
    case 2
    then show ?thesis
      by (intro exI [of _ 1])
        (simp add: evs_of_def order_tokens_append order_tokens_simps take_Suc_drop)
  qed
next
  case (4 s os w ws evs s' os' s'' evs' out sf)
  from 4(4) obtain k where k: "order_tokens evs'
         = map Some (take k (drop (order_id_index s'') (duplicate_order_ids s'')))"
      "k = 0 \<or> order_id_index s'' + k \<le> length (duplicate_order_ids s'')"
    by (auto simp: evs_of_def)
  note w = watch_stock_keeps [OF 4(2)]
  from active_body_Continue [OF 4(1)]
  consider "evs = []" "order_id_index s' = order_id_index s"
      "duplicate_order_ids s' = duplicate_order_ids s"
    | "order_id_index s < length (duplicate_order_ids s)"
      "order_tokens evs = [Some (duplicate_order_ids s ! order_id_index s)]"
      "order_id_index s' = Suc (order_id_index s)"
      "duplicate_order_ids s' = duplicate_order_ids s"
    by (auto simp: order_tokens_simps)
  then show ?case
  proof cases
    case 1
    then show ?thesis using k w
      by (intro exI [of _ k]) (simp add: evs_of_def order_tokens_simps)
  next
    case 2
    then show ?thesis
      using k w
      by (intro exI [of _ "Suc k"])
        (auto simp: evs_of_def order_tokens_append order_tokens_simps take_Suc_drop)
  qed
qed

text \<open>With fewer quote responses the loop is observed at an earlier moment.\<close>

lemma active_loop_initial_per_prefix:
  "initial_per (state_of (active_loop pf symbol s os (take n ws)))
     \<le> initial_per (state_of (active_loop pf symbol s os ws))"
proof (induction ws arbitrary: s os n)
  case Nil
  show ?case by simp
next
  case (Cons w ws)
  show ?case
  proof (cases "active_body pf symbol s os")
    case (Stop evs out s')
    then show ?thesis by (simp add: active_loop_Stop)
  next
    case (Continue evs s' os')
    obtain s'' eo where w: "watch_stock pf w s' = (s'', eo)" by (cases "watch_stock pf w s'")
    note k = watch_stock_keeps [OF w]
    show ?thesis
    proof (cases n)
      case 0
      show ?thesis
      proof (cases eo)
        case None
        with Continue w 0 k active_loop_initial_per_mono [of s'' pf symbol os' ws]
        show ?thesis by (simp add: active_loop_Nil active_loop_watch_ok state_of_def)
      next
        case (Some e)
        with Continue w 0 k show ?thesis
          by (simp add: active_loop_Nil active_loop_watch_failed state_of_def)
      qed
    next
      case (Suc m)
      show ?thesis
      proof (cases eo)
        case None
        with Continue w Suc Cons.IH [of s'' os' m]
        show ?thesis by (simp add: active_loop_watch_ok state_of_def)
      next
        case (Some e)
        with Continue w Suc show ?thesis by (simp add: active_loop_watch_failed)
      qed
    qed
  qed
qed

text \<open>The first loop of \<open>detect\<close> changes the quote fields only and submits no
  order; \<open>detect\<close> is the first loop, the assignment of \<open>circuit_per\<close> and the
  second loop.\<close>

lemma awaiting_open_keeps:
  assumes "awaiting_open pf symbol s ws = (evs, out, s1, rest)"
  shows "initial_per s1 = initial_per s \<and> circuit_per s1 = circuit_per s \<and>
         applied_qnty s1 = applied_qnty s \<and> duplicate_order_ids s1 = duplicate_order_ids s \<and>
         order_id_index s1 = order_id_index s \<and> order_tokens evs = []"
  using assms
proof (induction ws arbitrary: s evs out s1 rest)
  case Nil
  then show ?case by (auto simp: order_tokens_simps split: if_splits)
next
  case (Cons w ws)
  show ?case
  proof (cases "truthy (opening_price s)")
    case True
    with Cons.prems show ?thesis by (simp add: order_tokens_simps)
  next
    case False
    obtain s' eo where w: "watch_stock pf w s = (s', eo)" by (cases "watch_stock pf w s")
    note k = watch_stock_keeps [OF w]
    show ?thesis
    proof (cases eo)
      case (Some e)
      with False w Cons.prems k show ?thesis by (auto simp: order_tokens_simps)
    next
      case None
      obtain evs' out' sf rest' where r: "awaiting_open pf symbol s' ws = (evs', out', sf, rest')"
        by (cases "awaiting_open pf symbol s' ws")
      from Cons.IH [OF r] False w None r Cons.prems k
      show ?thesis by (auto simp: order_tokens_simps)
    qed
  qed
qed

lemma set_circuit_per_keeps:
  assumes "set_circuit_per s = Inr s'"
  shows "initial_per s' = initial_per s" and "applied_qnty s' = applied_qnty s"
    and "duplicate_order_ids s' = duplicate_order_ids s"
    and "order_id_index s' = order_id_index s"
    and "circuit_per s' = circuit_per_of (circuit_price s) (previous_day_closing s)"
    and "percent s' = percent s" and "circuit_price s' = circuit_price s" and "ltp s' = ltp s"
  using assms by (auto simp: set_circuit_per_def split: if_splits)

lemma detect_not_open:
  "awaiting_open pf symbol s ws = (evs, Some out, s1, rest) \<Longrightarrow>
     detect pf symbol s os ws = (evs, out, s1)"
  by (simp add: detect_def)

lemma detect_no_close:
  "awaiting_open pf symbol s ws = (evs, None, s1, rest) \<Longrightarrow> set_circuit_per s1 = Inl e \<Longrightarrow>
     detect pf symbol s os ws = (evs, Raised e, s1)"
  by (simp add: detect_def)

lemma detect_active:
  "awaiting_open pf symbol s ws = (evs, None, s1, rest) \<Longrightarrow> set_circuit_per s1 = Inr sa \<Longrightarrow>
     detect pf symbol s os ws =
       (evs @ evs_of (active_loop pf symbol sa os rest),
        out_of (active_loop pf symbol sa os rest), state_of (active_loop pf symbol sa os rest))"
  by (simp add: detect_def evs_of_def out_of_def state_of_def split: prod.splits)

lemma detect_cases [case_names not_open no_close active]:
  obtains
    (not_open) evs out s1 rest where "awaiting_open pf symbol s ws = (evs, Some out, s1, rest)"
  | (no_close) evs s1 rest e where "awaiting_open pf symbol s ws = (evs, None, s1, rest)"
      "set_circuit_per s1 = Inl e"
  | (active) evs s1 rest sa where "awaiting_open pf symbol s ws = (evs, None, s1, rest)"
      "set_circuit_per s1 = Inr sa"
proof -
  obtain evs out s1 rest where a: "awaiting_open pf symbol s ws = (evs, out, s1, rest)"
    by (cases "awaiting_open pf symbol s ws")
  show thesis
  proof (cases out)
    case None
    with a show ?thesis using no_close active by (cases "set_circuit_per s1") auto
  next
    case (Some out)
    with a show ?thesis using not_open by simp
  qed
qed

lemma detect_keeps:
  "initial_per s \<le> initial_per (state_of (detect pf symbol s os ws)) \<and>
   applied_qnty (state_of (detect pf symbol s os ws)) = applied_qnty s \<and>
   duplicate_order_ids (state_of (detect pf symbol s os ws)) = duplicate_order_ids s \<and>
   order_id_index s \<le> order_id_index (state_of (detect pf symbol s os ws)) \<and>
   (order_id_index s \<le> length (duplicate_order_ids s) \<longrightarrow>
      order_id_index (state_of (detect pf symbol s os ws)) \<le> length (duplicate_order_ids s))"
proof (cases pf symbol s ws rule: detect_cases)
  case (not_open evs out s1 rest)
  from awaiting_open_keeps [OF not_open] show ?thesis
    by (simp add: detect_not_open [OF not_open] state_of_def)
next
  case (no_close evs s1 rest e)
  from awaiting_open_keeps [OF no_close(1)] show ?thesis
    by (simp add: detect_no_close [OF no_close] state_of_def)
next
  case (active evs s1 rest sa)
  note a = awaiting_open_keeps [OF active(1)]
  note c = set_circuit_per_keeps [OF active(2)]
  have st: "state_of (detect pf symbol s os ws) = state_of (active_loop pf symbol sa os rest)"
    by (simp add: detect_active [OF active] state_of_def)
  show ?thesis
    unfolding st
    using a c active_loop_keeps [of pf symbol sa os rest]
      active_loop_initial_per_mono [of sa pf symbol os rest]
      active_loop_cursor [of sa pf symbol os rest]
    by simp
qed

lemma detect_tokens:
  "\<exists>k. order_tokens (evs_of (detect pf symbol s os ws))
         = map Some (take k (drop (order_id_index s) (duplicate_order_ids s))) \<and>
       (k = 0 \<or> order_id_index s + k \<le> length (duplicate_order_ids s))"
proof (cases pf symbol s ws rule: detect_cases)
  case (not_open evs out s1 rest)
  from awaiting_open_keeps [OF not_open] show ?thesis
    by (intro exI [of _ 0]) (simp add: detect_not_open [OF not_open] evs_of_def)
next
  case (no_close evs s1 rest e)
  from awaiting_open_keeps [OF no_close(1)] show ?thesis
    by (intro exI [of _ 0]) (simp add: detect_no_close [OF no_close] evs_of_def)
next
  case (active evs s1 rest sa)
  note a = awaiting_open_keeps [OF active(1)]
  note c = set_circuit_per_keeps [OF active(2)]
  have ev: "order_tokens (evs_of (detect pf symbol s os ws))
      = order_tokens (evs_of (active_loop pf symbol sa os rest))"
    using a by (simp add: detect_active [OF active] evs_of_def order_tokens_append)
  show ?thesis
    unfolding ev
    using a c active_loop_tokens [of pf symbol sa os rest]
    by simp
qed

text \<open>A run of the second loop that reaches its iteration number \<open>n\<close> is the events up
  to there followed by the run of the loop from there.\<close>

lemma iteration_run:
  "iteration pf symbol n s os ws = Some (evs, s', os', ws') \<Longrightarrow>
     active_loop pf symbol s os ws =
       (evs @ evs_of (active_loop pf symbol s' os' ws'),
        out_of (active_loop pf symbol s' os' ws'), state_of (active_loop pf symbol s' os' ws'))"
proof (induction n arbitrary: s os ws evs)
  case 0
  then show ?case by (simp add: evs_of_def out_of_def state_of_def)
next
  case (Suc n)
  from Suc.prems obtain evs1 s1 os1 where b: "active_body pf symbol s os = Continue evs1 s1 os1"
    by (cases "active_body pf symbol s os") auto
  from Suc.prems b obtain w ws1 where ws: "ws = w # ws1"
    by (cases ws) auto
  obtain s2 eo where w: "watch_stock pf w s1 = (s2, eo)" by (cases "watch_stock pf w s1")
  from Suc.prems b ws w have eo: "eo = None" by (cases eo) auto
  from Suc.prems b ws w eo obtain evs2
    where i: "iteration pf symbol n s2 os1 ws1 = Some (evs2, s', os', ws')"
      and e: "evs = evs1 @ WatchReq symbol # evs2"
    by (cases "iteration pf symbol n s2 os1 ws1") auto
  from Suc.IH [OF i] show ?case
    unfolding ws e
    by (simp add: active_loop_watch_ok [OF b w [unfolded eo]] evs_of_def out_of_def state_of_def)
qed

lemma iteration_stop:
  assumes "iteration pf symbol n s os ws = Some (evs, s', os', ws')"
    and "active_body pf symbol s' os' = Stop evs' out sf"
  shows "active_loop pf symbol s os ws = (evs @ evs', out, sf)"
  using iteration_run [OF assms(1)] active_loop_Stop [OF assms(2), of ws']
  by (simp add: evs_of_def out_of_def state_of_def)

text \<open>An iteration that goes on and whose poll succeeds leads to the next iteration.\<close>

lemma iteration_next:
  "iteration pf symbol n s os ws = Some (evs, s', os', w # ws') \<Longrightarrow>
   active_body pf symbol s' os' = Continue evs1 s1 os1 \<Longrightarrow> watch_stock pf w s1 = (s2, None) \<Longrightarrow>
     iteration pf symbol (Suc n) s os ws = Some (evs @ evs1 @ [WatchReq symbol], s2, os1, ws')"
proof (induction n arbitrary: s os ws evs)
  case 0
  then show ?case by simp
next
  case (Suc n)
  from Suc.prems(1) obtain evsa sa osa where b: "active_body pf symbol s os = Continue evsa sa osa"
    by (cases "active_body pf symbol s os") auto
  from Suc.prems(1) b obtain wa wsa where ws: "ws = wa # wsa"
    by (cases ws) auto
  obtain sb eo where w: "watch_stock pf wa sa = (sb, eo)" by (cases "watch_stock pf wa sa")
  from Suc.prems(1) b ws w have eo: "eo = None" by (cases eo) auto
  from Suc.prems(1) b ws w eo obtain evsb
    where i: "iteration pf symbol n sb osa wsa = Some (evsb, s', os', w # ws')"
      and e: "evs = evsa @ WatchReq symbol # evsb"
    by (cases "iteration pf symbol n sb osa wsa") auto
  from Suc.IH [OF i Suc.prems(2,3)]
  have "iteration pf symbol (Suc n) sb osa wsa = Some (evsb @ evs1 @ [WatchReq symbol], s2, os1, ws')" .
  then show ?case
    unfolding ws e
    by (subst iteration.simps(2)) (simp add: b w eo)
qed

lemmas run_defs = detect_def watch_stock_def quote_response_def watch_fields_def decimal_float_def
  unsigned_decimal_def digit_of_def init_state_def drop_commas_def py_int_def two_token_state_def
  set_circuit_per_def circuit_per_of_def set_prices_def order_accepted_def place_buy_order_def

lemmas loop_defs = active_loop.simps active_body_def draw_token_def order_req_def Let_def

section \<open>The first quote and the initial value of the trigger\<close>




section \<open>The final order\<close>



section \<open>The token cursor\<close>

lemma generate_ids_length: "length (fst (generate_ids rnd c n)) = n"
proof (induction n arbitrary: c)
  case 0
  show ?case by simp
next
  case (Suc n)
  obtain t c1 where g: "generate_duplicate_order_id rnd c = (t, c1)"
    by (cases "generate_duplicate_order_id rnd c")
  obtain ts c2 where r: "generate_ids rnd c1 n = (ts, c2)"
    by (cases "generate_ids rnd c1 n")
  from Suc.IH [of c1] r have "length ts = n" by simp
  with g r show ?case by simp
qed

lemma fill_pools_lengths:
  "map (\<lambda>p. length (duplicate_order_ids (snd p))) (fill_pools rnd c states)
     = map (\<lambda>p. length (duplicate_order_ids (snd p)) + 20) states"
proof (induction states arbitrary: c)
  case Nil
  show ?case by simp
next
  case (Cons p states)
  obtain k s where p: "p = (k, s)" by (cases p)
  obtain ids c' where g: "generate_ids rnd c 20 = (ids, c')" by (cases "generate_ids rnd c 20")
  from generate_ids_length [of rnd c 20] g have "length ids = 20" by simp
  with Cons.IH [of c'] p g show ?case by simp
qed

lemma fill_pools_keys: "map fst (fill_pools rnd c states) = map fst states"
proof (induction states arbitrary: c)
  case Nil
  show ?case by simp
next
  case (Cons p states)
  obtain k s where p: "p = (k, s)" by (cases p)
  obtain ids c' where g: "generate_ids rnd c 20 = (ids, c')" by (cases "generate_ids rnd c 20")
  with Cons.IH [of c'] p show ?case by simp
qed

lemma fill_pools_mem:
  "(k, s') \<in> set (fill_pools rnd c states) \<Longrightarrow>
     \<exists>s c'. (k, s) \<in> set states \<and>
       s' = s\<lparr>duplicate_order_ids := duplicate_order_ids s @ fst (generate_ids rnd c' 20)\<rparr>"
proof (induction states arbitrary: c)
  case Nil
  then show ?case by simp
next
  case (Cons p states)
  obtain k0 s0 where p: "p = (k0, s0)" by (cases p)
  obtain ids c' where g: "generate_ids rnd c 20 = (ids, c')" by (cases "generate_ids rnd c 20")
  from Cons.prems p g
  consider "k = k0" "s' = s0\<lparr>duplicate_order_ids := duplicate_order_ids s0 @ ids\<rparr>"
    | "(k, s') \<in> set (fill_pools rnd c' states)"
    by auto
  then show ?case
  proof cases
    case 1
    with p g show ?thesis
      by (intro exI [of _ s0] exI [of _ c]) simp
  next
    case 2
    from Cons.IH [OF 2] show ?thesis by auto
  qed
qed

lemma filled_pool:
  assumes "(symbol, sp) \<in> set (fill_pools rnd c states)"
    and "list_all (\<lambda>p. duplicate_order_ids (snd p) = [] \<and> order_id_index (snd p) = 0) states"
  shows "length (duplicate_order_ids sp) = 20" and "order_id_index sp = 0"
proof -
  from fill_pools_mem [OF assms(1)] obtain s c' where m: "(symbol, s) \<in> set states"
    and sp: "sp = s\<lparr>duplicate_order_ids := duplicate_order_ids s @ fst (generate_ids rnd c' 20)\<rparr>"
    by blast
  from assms(2) m have "duplicate_order_ids s = [] \<and> order_id_index s = 0"
    by (auto simp: list_all_iff)
  with sp show "length (duplicate_order_ids sp) = 20" and "order_id_index sp = 0"
    by (simp_all add: generate_ids_length)
qed

text \<open>
  Claim C3. The cursor \<open>order_id_index\<close> and the pool \<open>duplicate_order_ids\<close> of one
  symbol, over a run of \<open>detect\<close>.

  \<^item> A cursor that is within the size of the pool at the start is within it at the end,
    and \<open>detect\<close> never changes the pool: it is not extended.
  \<^item> The tokens of the orders of a run are the entries of the pool at consecutive
    positions from the cursor on, each position used once: no token is used again.
  \<^item> An iteration that is to draw a token with the cursor at or beyond the size of the
    pool submits nothing: the \<open>IndexError\<close> of the draw is caught and logged, and
    \<open>detect\<close> returns. This is the exhausted-pool error that ends the symbol's loop.
  \<^item> \<open>setup\<close> appends 20 tokens to the pool of every symbol: from states with an empty
    pool and the cursor at 0, every symbol has a pool of 20 tokens, and its run of \<open>detect\<close>
    ends with a cursor of at most 20 and the same 20 tokens.
\<close>

theorem token_cursor_within_pool:
  "(order_id_index s \<le> length (duplicate_order_ids s) \<longrightarrow>
      order_id_index (state_of (detect pf symbol s os ws)) \<le> length (duplicate_order_ids s)) \<and>
   duplicate_order_ids (state_of (detect pf symbol s os ws)) = duplicate_order_ids s \<and>
   (\<exists>k. order_tokens (evs_of (detect pf symbol s os ws))
           = map Some (take k (drop (order_id_index s) (duplicate_order_ids s))) \<and>
        (k = 0 \<or> order_id_index s + k \<le> length (duplicate_order_ids s))) \<and>
   (iteration pf symbol n s os ws = Some (evs0, s', os', ws') \<and> set_prices pf s' = Inr s2 \<and>
    initial_per s' < percent s' \<and> length (duplicate_order_ids s') \<le> order_id_index s' \<longrightarrow>
      active_loop pf symbol s os ws = (evs0 @ [LogError IndexError], Returned, s2) \<and>
      duplicate_order_ids s2 = duplicate_order_ids s' \<and> order_id_index s2 = order_id_index s') \<and>
   ((symbol, sp) \<in> set (fill_pools rnd c states) \<and>
    list_all (\<lambda>p. duplicate_order_ids (snd p) = [] \<and> order_id_index (snd p) = 0) states \<longrightarrow>
      length (duplicate_order_ids sp) = 20 \<and>
      order_id_index (state_of (detect pf symbol sp os ws)) \<le> 20 \<and>
      length (duplicate_order_ids (state_of (detect pf symbol sp os ws))) = 20)"
proof (intro conjI impI)
  assume "order_id_index s \<le> length (duplicate_order_ids s)"
  then show "order_id_index (state_of (detect pf symbol s os ws)) \<le> length (duplicate_order_ids s)"
    using detect_keeps [of s pf symbol os ws] by simp
next
  show "duplicate_order_ids (state_of (detect pf symbol s os ws)) = duplicate_order_ids s"
    using detect_keeps [of s pf symbol os ws] by simp
  show "\<exists>k. order_tokens (evs_of (detect pf symbol s os ws))
           = map Some (take k (drop (order_id_index s) (duplicate_order_ids s))) \<and>
        (k = 0 \<or> order_id_index s + k \<le> length (duplicate_order_ids s))"
    by (rule detect_tokens)
next
  assume a: "iteration pf symbol n s os ws = Some (evs0, s', os', ws') \<and> set_prices pf s' = Inr s2 \<and>
    initial_per s' < percent s' \<and> length (duplicate_order_ids s') \<le> order_id_index s'"
  then have i: "iteration pf symbol n s os ws = Some (evs0, s', os', ws')"
    and p: "set_prices pf s' = Inr s2"
    and b: "active_body pf symbol s' os' = Stop [LogError IndexError] Returned s2"
    by (simp_all add: active_body_exhausted)
  from iteration_stop [OF i b]
  show "active_loop pf symbol s os ws = (evs0 @ [LogError IndexError], Returned, s2)" .
  from set_prices_keeps [OF p]
  show "duplicate_order_ids s2 = duplicate_order_ids s'" and "order_id_index s2 = order_id_index s'"
    by simp_all
next
  assume a: "(symbol, sp) \<in> set (fill_pools rnd c states) \<and>
    list_all (\<lambda>p. duplicate_order_ids (snd p) = [] \<and> order_id_index (snd p) = 0) states"
  then have f: "length (duplicate_order_ids sp) = 20" "order_id_index sp = 0"
    using filled_pool [of symbol sp rnd c states] by simp_all
  from f show "length (duplicate_order_ids sp) = 20" by simp
  from f show "order_id_index (state_of (detect pf symbol sp os ws)) \<le> 20"
    using detect_keeps [of sp pf symbol os ws] by simp
  from f show "length (duplicate_order_ids (state_of (detect pf symbol sp os ws))) = 20"
    using detect_keeps [of sp pf symbol os ws] by simp
qed

text \<open>A pool of two tokens and quotes at 1, 2 and 3 percent: two probing orders with
  the two tokens, then the draw at position 2 fails, the error is logged and \<open>detect\<close>
  returns with the cursor at 2. And the pool that \<open>setup\<close> fills has 20 tokens.\<close>

theorem token_cursor_within_pool_witness:
  "detect decimal_float ''JHAPA'' two_token_state [order_accepted, order_accepted, order_accepted]
     [quote_response ''101.0'' ''100.0'' ''96'' ''1.0'' ''110.0'',
      quote_response ''102.0'' ''100.0'' ''96'' ''2.0'' ''110.0'',
      quote_response ''103.0'' ''100.0'' ''96'' ''3.0'' ''110.0'']
   = ([WatchReq ''JHAPA'', OrderReq ''JHAPA'' 10 103 (Some ''123456789a'') 101,
       WatchReq ''JHAPA'', OrderReq ''JHAPA'' 10 104 (Some ''bcdefghijk'') 102,
       WatchReq ''JHAPA'', LogError IndexError], Returned,
      \<lparr>applied_qnty = 300, opening_price = PStr ''96'', percent = 3,
       ltp = PStr ''103.0'', ltp_p = 103, circuit_price = 110,
       previous_day_closing = 100, high_price = 105, initial_per = 2,
       circuit_per = 10, remain_per = 8,
       duplicate_order_id = Some ''bcdefghijk'',
       duplicate_order_ids = [''123456789a'', ''bcdefghijk''],
       order_id_index = 2\<rparr>) \<and>
   length (duplicate_order_ids
     (snd (hd (fill_pools repeating_picks 0 [(''JHAPA'', init_state 300)])))) = 20 \<and>
   order_id_index (state_of (detect decimal_float ''JHAPA''
     (snd (hd (fill_pools repeating_picks 0 [(''JHAPA'', init_state 300)]))) [] [])) \<le> 20"
proof -
  have run: "detect decimal_float ''JHAPA'' two_token_state [order_accepted, order_accepted, order_accepted]
     [quote_response ''101.0'' ''100.0'' ''96'' ''1.0'' ''110.0'',
      quote_response ''102.0'' ''100.0'' ''96'' ''2.0'' ''110.0'',
      quote_response ''103.0'' ''100.0'' ''96'' ''3.0'' ''110.0'']
   = ([WatchReq ''JHAPA'', OrderReq ''JHAPA'' 10 103 (Some ''123456789a'') 101,
       WatchReq ''JHAPA'', OrderReq ''JHAPA'' 10 104 (Some ''bcdefghijk'') 102,
       WatchReq ''JHAPA'', LogError IndexError], Returned,
      \<lparr>applied_qnty = 300, opening_price = PStr ''96'', percent = 3,
       ltp = PStr ''103.0'', ltp_p = 103, circuit_price = 110,
       previous_day_closing = 100, high_price = 105, initial_per = 2,
       circuit_per = 10, remain_per = 8,
       duplicate_order_id = Some ''bcdefghijk'',
       duplicate_order_ids = [''123456789a'', ''bcdefghijk''],
       order_id_index = 2\<rparr>)"
    using token_cursor_within_pool [where pf = decimal_float and symbol = "''JHAPA''"
      and n = "Suc (Suc 0)"
      and s = "\<lparr>applied_qnty = 300, opening_price = PStr ''96'', percent = 1,
       ltp = PStr ''101.0'', ltp_p = 0, circuit_price = 110,
       previous_day_closing = 100, high_price = 0, initial_per = - 2,
       circuit_per = 10, remain_per = 0, duplicate_order_id = None,
       duplicate_order_ids = [''123456789a'', ''bcdefghijk''],
       order_id_index = 0\<rparr>"
      and os = "[order_accepted, order_accepted, order_accepted]"
      and ws = "[quote_response ''102.0'' ''100.0'' ''96'' ''2.0'' ''110.0'',
                 quote_response ''103.0'' ''100.0'' ''96'' ''3.0'' ''110.0'']"
      and ?evs0.0 = "[OrderReq ''JHAPA'' 10 103 (Some ''123456789a'') 101, WatchReq ''JHAPA'',
                    OrderReq ''JHAPA'' 10 104 (Some ''bcdefghijk'') 102, WatchReq ''JHAPA'']"
      and s' = "\<lparr>applied_qnty = 300, opening_price = PStr ''96'', percent = 3,
       ltp = PStr ''103.0'', ltp_p = 102, circuit_price = 110,
       previous_day_closing = 100, high_price = 104, initial_per = 2,
       circuit_per = 10, remain_per = 8,
       duplicate_order_id = Some ''bcdefghijk'',
       duplicate_order_ids = [''123456789a'', ''bcdefghijk''],
       order_id_index = 2\<rparr>"
      and os' = "[order_accepted]" and ws' = "[]"
      and ?s2.0 = "\<lparr>applied_qnty = 300, opening_price = PStr ''96'', percent = 3,
       ltp = PStr ''103.0'', ltp_p = 103, circuit_price = 110,
       previous_day_closing = 100, high_price = 105, initial_per = 2,
       circuit_per = 10, remain_per = 8,
       duplicate_order_id = Some ''bcdefghijk'',
       duplicate_order_ids = [''123456789a'', ''bcdefghijk''],
       order_id_index = 2\<rparr>",
      THEN conjunct2, THEN conjunct2, THEN conjunct2, THEN conjunct1]
    by (simp add: run_defs active_body_def draw_token_def order_req_def Let_def floor_eq_iff)
  have pool: "length (duplicate_order_ids
       (snd (hd (fill_pools repeating_picks 0 [(''JHAPA'', init_state 300)])))) = 20 \<and>
     order_id_index (state_of (detect decimal_float ''JHAPA''
       (snd (hd (fill_pools repeating_picks 0 [(''JHAPA'', init_state 300)]))) [] [])) \<le> 20"
    using token_cursor_within_pool [where pf = decimal_float and symbol = "''JHAPA''"
      and sp = "snd (hd (fill_pools repeating_picks 0 [(''JHAPA'', init_state 300)]))"
      and os = "[]" and ws = "[]"
      and rnd = repeating_picks and c = 0 and states = "[(''JHAPA'', init_state 300)]",
      THEN conjunct2, THEN conjunct2, THEN conjunct2, THEN conjunct2]
    by (simp add: case_prod_beta init_state_def)
  show ?thesis by (rule conjI [OF run pool])
qed

section \<open>The generated tokens\<close>

lemma choices_length: "length (choices rnd c population k) = k"
  by (simp add: choices_def)

lemma choices_subset:
  "population \<noteq> [] \<Longrightarrow> set (choices rnd c population k) \<subseteq> set population"
  by (auto simp: choices_def)

lemma trimmed_chars_value:
  "trimmed_chars = ''123456789abcdefghijklmnopqrstuvwxyzABCDEFGHIJKLMNOPQRSTUVWX''"
  by (simp add: trimmed_chars_def chars_def)

lemma generate_ids_tokens:
  "list_all (\<lambda>t. length t = 10 \<and> set t \<subseteq> set trimmed_chars) (fst (generate_ids rnd c n))"
proof (induction n arbitrary: c)
  case 0
  show ?case by simp
next
  case (Suc n)
  obtain ts c2 where r: "generate_ids rnd (c + 10) n = (ts, c2)"
    by (cases "generate_ids rnd (c + 10) n")
  have ne: "trimmed_chars \<noteq> []" by (simp add: trimmed_chars_value)
  from Suc.IH [of "c + 10"] r
  have "list_all (\<lambda>t. length t = 10 \<and> set t \<subseteq> set trimmed_chars) ts" by simp
  with r choices_subset [OF ne, of rnd c 10] show ?case
    by (simp add: generate_duplicate_order_id_def choices_length)
qed

lemma generate_ids_nth:
  "i < n \<Longrightarrow> fst (generate_ids rnd c n) ! i = choices rnd (c + 10 * i) trimmed_chars 10"
proof (induction n arbitrary: c i)
  case 0
  then show ?case by simp
next
  case (Suc n)
  obtain ts c2 where r: "generate_ids rnd (c + 10) n = (ts, c2)"
    by (cases "generate_ids rnd (c + 10) n")
  show ?case
  proof (cases i)
    case 0
    with r show ?thesis by (simp add: generate_duplicate_order_id_def)
  next
    case (Suc j)
    with Suc.prems have "j < n" by simp
    from Suc.IH [OF this, of "c + 10"] r Suc show ?thesis
      by (simp add: generate_duplicate_order_id_def algebra_simps)
  qed
qed

text \<open>
  Claim C4, as amended. The inner loop of \<open>setup\<close> produces \<open>n\<close> tokens (20 for every
  symbol, appended to its pool). Every token has 10 characters, each of them one of the 59
  characters of the trimmed alphabet: the digits 1 to 9 and the letters without \<open>Y\<close> and
  \<open>Z\<close>; there is no \<open>0\<close>. Token number \<open>i\<close> is made of the picks number \<open>10 * i\<close> to
  \<open>10 * i + 9\<close> of the generator, each pick choosing one character, with replacement.
  Nothing makes the tokens differ from one another.
\<close>

theorem token_pool_shape:
  "length (fst (generate_ids rnd c n)) = n \<and>
   list_all (\<lambda>t. length t = 10 \<and> set t \<subseteq> set trimmed_chars) (fst (generate_ids rnd c n)) \<and>
   trimmed_chars = ''123456789abcdefghijklmnopqrstuvwxyzABCDEFGHIJKLMNOPQRSTUVWX'' \<and>
   length trimmed_chars = 59 \<and>
   CHR ''Y'' \<notin> set trimmed_chars \<and> CHR ''Z'' \<notin> set trimmed_chars \<and>
   CHR ''0'' \<notin> set trimmed_chars \<and>
   (\<forall>i<n. fst (generate_ids rnd c n) ! i
      = map (\<lambda>j. trimmed_chars ! (rnd (c + 10 * i + j) mod 59)) [0..<10]) \<and>
   map (\<lambda>p. length (duplicate_order_ids (snd p))) (fill_pools rnd c states)
     = map (\<lambda>p. length (duplicate_order_ids (snd p)) + 20) states"
proof (intro conjI allI impI)
  show "length (fst (generate_ids rnd c n)) = n" by (rule generate_ids_length)
  show "list_all (\<lambda>t. length t = 10 \<and> set t \<subseteq> set trimmed_chars) (fst (generate_ids rnd c n))"
    by (rule generate_ids_tokens)
  show "trimmed_chars = ''123456789abcdefghijklmnopqrstuvwxyzABCDEFGHIJKLMNOPQRSTUVWX''"
    by (rule trimmed_chars_value)
  show "length trimmed_chars = 59" by (simp add: trimmed_chars_value)
  show "CHR ''Y'' \<notin> set trimmed_chars" by (simp add: trimmed_chars_value)
  show "CHR ''Z'' \<notin> set trimmed_chars" by (simp add: trimmed_chars_value)
  show "CHR ''0'' \<notin> set trimmed_chars" by (simp add: trimmed_chars_value)
  show "map (\<lambda>p. length (duplicate_order_ids (snd p))) (fill_pools rnd c states)
     = map (\<lambda>p. length (duplicate_order_ids (snd p)) + 20) states"
    by (rule fill_pools_lengths)
next
  fix i
  assume "i < n"
  have l: "length trimmed_chars = 59" by (simp add: trimmed_chars_value)
  from generate_ids_nth [OF \<open>i < n\<close>, of rnd c]
  show "fst (generate_ids rnd c n) ! i
      = map (\<lambda>j. trimmed_chars ! (rnd (c + 10 * i + j) mod 59)) [0..<10]"
    unfolding choices_def l by simp
qed

text \<open>With picks that repeat with period 10, token number 3 of 20 is \<open>123456789a\<close>.\<close>

theorem token_pool_shape_witness:
  "length (fst (generate_ids repeating_picks 0 20)) = 20 \<and>
   fst (generate_ids repeating_picks 0 20) ! 3 = ''123456789a''"
  using token_pool_shape [where rnd = repeating_picks and c = 0 and n = 20,
      THEN conjunct2, THEN conjunct2, THEN conjunct2, THEN conjunct2, THEN conjunct2,
      THEN conjunct2, THEN conjunct2, THEN conjunct1, rule_format, of 3]
    token_pool_shape [where rnd = repeating_picks and c = 0 and n = 20, THEN conjunct1]
  by (simp add: repeating_picks_def trimmed_chars_value upt_rec)

text \<open>
  The claim as stated fails: the tokens need not be pairwise distinct. Every character is
  picked with replacement and no token is compared with another; when the picks repeat
  with period 10, the first two tokens are the same, and so are all 20.
\<close>

theorem token_collision_counterexample:
  "fst (generate_duplicate_order_id repeating_picks 0) = ''123456789a'' \<and>
   fst (generate_duplicate_order_id repeating_picks 10) = ''123456789a'' \<and>
   fst (generate_ids repeating_picks 0 20) ! 0 = ''123456789a'' \<and>
   fst (generate_ids repeating_picks 0 20) ! 1 = ''123456789a'' \<and>
   \<not> distinct (fst (generate_ids repeating_picks 0 20))"
  by code_simp

section \<open>The last trigger percent\<close>

text \<open>
  Claim C5. \<open>initial_per\<close> never decreases in the life of one dispatch loop.

  \<^item> It is not lower at the end of a run of \<open>detect\<close>, or of its second loop, than at
    the start.
  \<^item> A run observed earlier (with the first \<open>n\<close> of its quote responses) has an
    \<open>initial_per\<close> no higher than the same run observed later: the values it takes
    one after the other are non-decreasing.
  \<^item> One iteration either leaves \<open>initial_per\<close> as it is or assigns to it the percent
    change of the current quote, and this only when that percent change is strictly
    greater than the value it replaces. Reading a quote does not change it.
\<close>

theorem initial_per_non_decreasing:
  "initial_per s \<le> initial_per (state_of (detect pf symbol s os ws)) \<and>
   initial_per s \<le> initial_per (state_of (active_loop pf symbol s os ws)) \<and>
   initial_per (state_of (active_loop pf symbol s os (take n ws)))
     \<le> initial_per (state_of (active_loop pf symbol s os ws)) \<and>
   (case active_body pf symbol s os of
      Stop evs out s' \<Rightarrow> initial_per s' = initial_per s
    | Continue evs s' os' \<Rightarrow>
        initial_per s' = initial_per s \<or>
        initial_per s < percent s \<and> initial_per s' = percent s) \<and>
   initial_per (fst (watch_stock pf w s)) = initial_per s"
proof (intro conjI)
  show "initial_per s \<le> initial_per (state_of (detect pf symbol s os ws))"
    using detect_keeps [of s pf symbol os ws] by simp
  show "initial_per s \<le> initial_per (state_of (active_loop pf symbol s os ws))"
    by (rule active_loop_initial_per_mono)
  show "initial_per (state_of (active_loop pf symbol s os (take n ws)))
     \<le> initial_per (state_of (active_loop pf symbol s os ws))"
    by (rule active_loop_initial_per_prefix)
  show "case active_body pf symbol s os of
      Stop evs out s' \<Rightarrow> initial_per s' = initial_per s
    | Continue evs s' os' \<Rightarrow>
        initial_per s' = initial_per s \<or>
        initial_per s < percent s \<and> initial_per s' = percent s"
  proof (cases "active_body pf symbol s os")
    case (Stop evs out s')
    with active_body_Stop [OF Stop] show ?thesis by simp
  next
    case (Continue evs s' os')
    with active_body_Continue [OF Continue] show ?thesis by auto
  qed
  show "initial_per (fst (watch_stock pf w s)) = initial_per s"
    using watch_stock_keeps(1) [of pf w s "fst (watch_stock pf w s)" "snd (watch_stock pf w s)"]
    by simp
qed

text \<open>Quotes at 1, 0.5 and 2 percent: \<open>initial_per\<close> goes from -2 to 1, stays at 1,
  and goes to 2.\<close>

theorem initial_per_non_decreasing_witness:
  "initial_per two_token_state = - 2 \<and>
   initial_per (state_of (detect decimal_float ''JHAPA'' two_token_state
      [order_accepted, order_accepted]
      [quote_response ''101.0'' ''100.0'' ''96'' ''1.0'' ''110.0''])) = 1 \<and>
   initial_per (state_of (detect decimal_float ''JHAPA'' two_token_state
      [order_accepted, order_accepted]
      [quote_response ''101.0'' ''100.0'' ''96'' ''1.0'' ''110.0'',
       quote_response ''100.5'' ''100.0'' ''96'' ''0.5'' ''110.0''])) = 1 \<and>
   initial_per (state_of (detect decimal_float ''JHAPA'' two_token_state
      [order_accepted, order_accepted]
      [quote_response ''101.0'' ''100.0'' ''96'' ''1.0'' ''110.0'',
       quote_response ''100.5'' ''100.0'' ''96'' ''0.5'' ''110.0'',
       quote_response ''102.0'' ''100.0'' ''96'' ''2.0'' ''110.0''])) = 2"
  using initial_per_non_decreasing [where pf = decimal_float and symbol = "''JHAPA''"
      and s = two_token_state and os = "[order_accepted, order_accepted]"
      and ws = "[quote_response ''101.0'' ''100.0'' ''96'' ''1.0'' ''110.0'',
       quote_response ''100.5'' ''100.0'' ''96'' ''0.5'' ''110.0'',
       quote_response ''102.0'' ''100.0'' ''96'' ''2.0'' ''110.0'']"
      and n = 1 and w = "quote_response ''101.0'' ''100.0'' ''96'' ''1.0'' ''110.0''"]
  by (simp add: run_defs loop_defs state_of_def floor_eq_iff)

section \<open>The ceiling band\<close>







section \<open>The strict comparison\<close>

lemma set_prices_shape:
  "set_prices pf s = Inr s2 \<Longrightarrow> s2 = s\<lparr>ltp_p := ltp_p s2, high_price := high_price s2\<rparr>"
  by (auto simp: set_prices_def Let_def split: sum.splits)

lemma not_eligible_no_order:
  assumes "\<not> initial_per s < percent s"
  shows "filter is_order (step_events (active_body pf symbol s os)) = []"
proof (cases "set_prices pf s")
  case (Inl e)
  then show ?thesis by (simp add: active_body_set_prices_Inl)
next
  case (Inr s2)
  with assms show ?thesis by (simp add: active_body_not_eligible)
qed

lemma active_body_Continue_orders:
  assumes "active_body pf symbol s os = Continue evs s' os'"
  shows "length (filter is_order evs) \<le> 1"
  using active_body_Continue [OF assms] by auto

text \<open>
  Claim C8. The comparison is \<open>percent > initial_per\<close>. Let the second loop of \<open>detect\<close>
  reach an iteration in state \<open>s\<close> whose percent change is equal to or less than
  \<open>initial_per s\<close>.

  \<^item> The iteration submits no order. When the trade price parses and the next quote is
    read, the run reaches its next iteration having added to the trace the quote request
    and nothing else, with the same order responses left, in a state \<open>s3\<close> that differs
    from \<open>s\<close> only in the five fields that the quote overwrites and in \<open>ltp_p\<close> and
    \<open>high_price\<close>, the numeric trade price and the limit price that every iteration
    recomputes from the quote. (When the trade price does not parse, \<open>detect\<close> logs the
    exception and returns with the state unchanged.)
  \<^item> Two consecutive polls with the same percent change: whatever the iteration in state
    \<open>s\<close> did (it submitted at most one order), if the quote it then reads has the percent
    change of \<open>s\<close>, the next iteration submits no order.
\<close>

theorem no_order_unless_strictly_greater:
  assumes "iteration pf symbol n s0 os0 ws0 = Some (evs0, s, os, w # ws)"
  shows "(percent s \<le> initial_per s \<longrightarrow>
            filter is_order (step_events (active_body pf symbol s os)) = []) \<and>
         (percent s \<le> initial_per s \<and> set_prices pf s = Inr s2 \<and> watch_stock pf w s2 = (s3, None) \<longrightarrow>
            iteration pf symbol (Suc n) s0 os0 ws0 = Some (evs0 @ [WatchReq symbol], s3, os, ws) \<and>
            s3 = with_quote s3 (s\<lparr>ltp_p := ltp_p s2, high_price := high_price s2\<rparr>)) \<and>
         (percent s \<le> initial_per s \<and> set_prices pf s = Inl e \<longrightarrow>
            active_loop pf symbol s0 os0 ws0 = (evs0 @ [LogError e], Returned, s)) \<and>
         (active_body pf symbol s os = Continue evs s1 os1 \<and> watch_stock pf w s1 = (s', None) \<and>
          percent s' = percent s \<longrightarrow>
            iteration pf symbol (Suc n) s0 os0 ws0 = Some (evs0 @ evs @ [WatchReq symbol], s', os1, ws) \<and>
            length (filter is_order evs) \<le> 1 \<and>
            filter is_order (step_events (active_body pf symbol s' os1)) = [])"
proof (intro conjI impI)
  assume "percent s \<le> initial_per s"
  then show "filter is_order (step_events (active_body pf symbol s os)) = []"
    by (intro not_eligible_no_order) simp
next
  assume a: "percent s \<le> initial_per s \<and> set_prices pf s = Inr s2 \<and> watch_stock pf w s2 = (s3, None)"
  then have p: "set_prices pf s = Inr s2" and w: "watch_stock pf w s2 = (s3, None)"
    and b: "active_body pf symbol s os = Continue [] s2 os"
    by (simp_all add: active_body_not_eligible)
  from iteration_next [OF assms b w]
  show "iteration pf symbol (Suc n) s0 os0 ws0 = Some (evs0 @ [WatchReq symbol], s3, os, ws)"
    by simp
  have "s3 = with_quote s3 s2" using watch_stock_frame [of pf w s2] w by simp
  then show "s3 = with_quote s3 (s\<lparr>ltp_p := ltp_p s2, high_price := high_price s2\<rparr>)"
    using set_prices_shape [OF p] by simp
next
  assume "percent s \<le> initial_per s \<and> set_prices pf s = Inl e"
  then have "active_body pf symbol s os = Stop [LogError e] Returned s"
    by (simp add: active_body_set_prices_Inl)
  from iteration_stop [OF assms this]
  show "active_loop pf symbol s0 os0 ws0 = (evs0 @ [LogError e], Returned, s)" .
next
  assume a: "active_body pf symbol s os = Continue evs s1 os1 \<and> watch_stock pf w s1 = (s', None) \<and>
          percent s' = percent s"
  then have c: "active_body pf symbol s os = Continue evs s1 os1"
    and w: "watch_stock pf w s1 = (s', None)" and p: "percent s' = percent s"
    by simp_all
  from iteration_next [OF assms c w]
  show "iteration pf symbol (Suc n) s0 os0 ws0 = Some (evs0 @ evs @ [WatchReq symbol], s', os1, ws)" .
  from c show "length (filter is_order evs) \<le> 1" by (rule active_body_Continue_orders)
  from active_body_Continue [OF c] have "initial_per s1 = percent s \<or> percent s \<le> initial_per s1"
    by auto
  with watch_stock_keeps(1) [OF w] p have "\<not> initial_per s' < percent s'" by auto
  then show "filter is_order (step_events (active_body pf symbol s' os1)) = []"
    by (rule not_eligible_no_order)
qed

text \<open>Two quotes with a percent change of 1, one after the other: the first brings a
  probing order and sets \<open>initial_per\<close> to 1, the second brings none; the iteration of
  the second quote changes nothing in the state.\<close>

theorem no_order_unless_strictly_greater_witness:
  "detect decimal_float ''JHAPA'' two_token_state [order_accepted, order_accepted]
     [quote_response ''101.0'' ''100.0'' ''96'' ''1.0'' ''110.0'',
      quote_response ''101.0'' ''100.0'' ''96'' ''1.0'' ''110.0'']
   = ([WatchReq ''JHAPA'', OrderReq ''JHAPA'' 10 103 (Some ''123456789a'') 101,
       WatchReq ''JHAPA'', WatchReq ''JHAPA''], Blocked,
      \<lparr>applied_qnty = 300, opening_price = PStr ''96'', percent = 1,
       ltp = PStr ''101.0'', ltp_p = 101, circuit_price = 110,
       previous_day_closing = 100, high_price = 103, initial_per = 1,
       circuit_per = 10, remain_per = 9,
       duplicate_order_id = Some ''123456789a'',
       duplicate_order_ids = [''123456789a'', ''bcdefghijk''],
       order_id_index = 1\<rparr>) \<and>
   iteration decimal_float ''JHAPA'' 1
      \<lparr>applied_qnty = 300, opening_price = PStr ''96'', percent = 1,
       ltp = PStr ''101.0'', ltp_p = 0, circuit_price = 110,
       previous_day_closing = 100, high_price = 0, initial_per = - 2,
       circuit_per = 10, remain_per = 0, duplicate_order_id = None,
       duplicate_order_ids = [''123456789a'', ''bcdefghijk''],
       order_id_index = 0\<rparr>
      [order_accepted, order_accepted]
      [quote_response ''101.0'' ''100.0'' ''96'' ''1.0'' ''110.0'']
   = Some ([OrderReq ''JHAPA'' 10 103 (Some ''123456789a'') 101, WatchReq ''JHAPA''],
      \<lparr>applied_qnty = 300, opening_price = PStr ''96'', percent = 1,
       ltp = PStr ''101.0'', ltp_p = 101, circuit_price = 110,
       previous_day_closing = 100, high_price = 103, initial_per = 1,
       circuit_per = 10, remain_per = 9,
       duplicate_order_id = Some ''123456789a'',
       duplicate_order_ids = [''123456789a'', ''bcdefghijk''],
       order_id_index = 1\<rparr>, [order_accepted], []) \<and>
   filter is_order (step_events (active_body decimal_float ''JHAPA''
      \<lparr>applied_qnty = 300, opening_price = PStr ''96'', percent = 1,
       ltp = PStr ''101.0'', ltp_p = 101, circuit_price = 110,
       previous_day_closing = 100, high_price = 103, initial_per = 1,
       circuit_per = 10, remain_per = 9,
       duplicate_order_id = Some ''123456789a'',
       duplicate_order_ids = [''123456789a'', ''bcdefghijk''],
       order_id_index = 1\<rparr> [order_accepted])) = []"
  using no_order_unless_strictly_greater [where pf = decimal_float and symbol = "''JHAPA''"
      and n = 0
      and ?s0.0 = "\<lparr>applied_qnty = 300, opening_price = PStr ''96'', percent = 1,
       ltp = PStr ''101.0'', ltp_p = 0, circuit_price = 110,
       previous_day_closing = 100, high_price = 0, initial_per = - 2,
       circuit_per = 10, remain_per = 0, duplicate_order_id = None,
       duplicate_order_ids = [''123456789a'', ''bcdefghijk''],
       order_id_index = 0\<rparr>"
      and ?os0.0 = "[order_accepted, order_accepted]"
      and ?ws0.0 = "[quote_response ''101.0'' ''100.0'' ''96'' ''1.0'' ''110.0'']"
      and ?evs0.0 = "[]"
      and s = "\<lparr>applied_qnty = 300, opening_price = PStr ''96'', percent = 1,
       ltp = PStr ''101.0'', ltp_p = 0, circuit_price = 110,
       previous_day_closing = 100, high_price = 0, initial_per = - 2,
       circuit_per = 10, remain_per = 0, duplicate_order_id = None,
       duplicate_order_ids = [''123456789a'', ''bcdefghijk''],
       order_id_index = 0\<rparr>"
      and os = "[order_accepted, order_accepted]"
      and w = "quote_response ''101.0'' ''100.0'' ''96'' ''1.0'' ''110.0''" and ws = "[]"
      and evs = "[OrderReq ''JHAPA'' 10 103 (Some ''123456789a'') 101]"
      and ?s1.0 = "\<lparr>applied_qnty = 300, opening_price = PStr ''96'', percent = 1,
       ltp = PStr ''101.0'', ltp_p = 101, circuit_price = 110,
       previous_day_closing = 100, high_price = 103, initial_per = 1,
       circuit_per = 10, remain_per = 9,
       duplicate_order_id = Some ''123456789a'',
       duplicate_order_ids = [''123456789a'', ''bcdefghijk''],
       order_id_index = 1\<rparr>"
      and ?os1.0 = "[order_accepted]"
      and s' = "\<lparr>applied_qnty = 300, opening_price = PStr ''96'', percent = 1,
       ltp = PStr ''101.0'', ltp_p = 101, circuit_price = 110,
       previous_day_closing = 100, high_price = 103, initial_per = 1,
       circuit_per = 10, remain_per = 9,
       duplicate_order_id = Some ''123456789a'',
       duplicate_order_ids = [''123456789a'', ''bcdefghijk''],
       order_id_index = 1\<rparr>"]
  by (simp add: run_defs loop_defs floor_eq_iff)

section \<open>The end of a run\<close>

lemma runner_closed_iff:
  "session_closed (runner pf b inp) \<longleftrightarrow> run_outcome (runner pf b inp) = Returned"
  by (simp add: runner_def aborted_def Let_def split: sum.splits prod.splits outcome.splits)

text \<open>
  Claim C9, as amended. \<open>runner\<close> closes the session in its last statement, which is
  reached only when nothing before it raised: \<open>session_closed\<close> holds exactly of the
  runs that return.

  \<^item> When \<open>get_cookies\<close> (in \<open>setup\<close>), \<open>login\<close>, \<open>fetch_user_details\<close> or the
    market gate raises, \<open>runner\<close> ends with that exception and the session has not been
    closed.
  \<^item> When the gate has returned, the exceptions of the \<open>detect\<close> tasks are collected as
    their results and do not prevent the close: the session is closed as soon as no task
    is still waiting.
\<close>

theorem session_closed_only_after_gather:
  "(session_closed (runner pf b inp) \<longleftrightarrow> run_outcome (runner pf b inp) = Returned) \<and>
   (get_cookies (cookie_resp inp) = Inl e \<longrightarrow> runner pf b inp = aborted (Raised e)) \<and>
   (get_cookies (cookie_resp inp) = Inr c \<and> login (login_resp inp) = Inl e \<longrightarrow>
      runner pf b inp = aborted (Raised e)) \<and>
   (get_cookies (cookie_resp inp) = Inr c \<and> login (login_resp inp) = Inr ids \<and>
    fetch_user_details (details_resp inp) = Inl e \<longrightarrow>
      runner pf b inp = aborted (Raised e)) \<and>
   (get_cookies (cookie_resp inp) = Inr c \<and> login (login_resp inp) = Inr ids \<and>
    fetch_user_details (details_resp inp) = Inr info \<and>
    wait_market_open pf (demo_symbol b) (fill_pools (picks inp) 0 (stock_states b))
      (gate_hours inp) (gate_status inp) (gate_watch inp) = (evs, Raised e, states') \<longrightarrow>
      runner pf b inp = aborted (Raised e)) \<and>
   (get_cookies (cookie_resp inp) = Inr c \<and> login (login_resp inp) = Inr ids \<and>
    fetch_user_details (details_resp inp) = Inr info \<and>
    wait_market_open pf (demo_symbol b) (fill_pools (picks inp) 0 (stock_states b))
      (gate_hours inp) (gate_status inp) (gate_watch inp) = (evs, Returned, states') \<longrightarrow>
      session_closed (runner pf b inp) = (\<not> list_ex task_blocked (gather pf inp states')) \<and>
      task_results (runner pf b inp) = gather pf inp states') \<and>
   session_closed (aborted out) = False"
  by (simp add: runner_closed_iff) (simp add: runner_def aborted_def Let_def)

text \<open>Start-up and gate succeed and the quote request of the only symbol is refused:
  its task ends with an exception, which is collected, and the session is closed.\<close>

theorem session_closed_only_after_gather_witness:
  "session_closed (runner decimal_float jhapa_bot refused_quote_run) \<and>
   map fst (task_results (runner decimal_float jhapa_bot refused_quote_run)) = [''JHAPA''] \<and>
   map (\<lambda>r. fst (snd (snd r))) (task_results (runner decimal_float jhapa_bot refused_quote_run))
     = [Raised (Exception ''Failed to fetch watch details!'')]"
  using session_closed_only_after_gather [where pf = decimal_float and b = jhapa_bot
      and inp = refused_quote_run and c = "Some ''c00''" and ids = "(PStr ''7'', PStr ''10'')"
      and info = "(PStr ''1'', PStr ''C1'', PStr ''K'', PStr ''N1'')"
      and evs = "[StatusReq]"
      and states' = "fill_pools repeating_picks 0 [(''JHAPA'', init_state 300)]",
      THEN conjunct2, THEN conjunct2, THEN conjunct2, THEN conjunct2, THEN conjunct2,
      THEN conjunct1]
  by (simp add: refused_quote_run_def jhapa_bot_def get_cookies_def login_def login_accepted_def
      fetch_user_details_def details_accepted_def user_info_def market_status_response
      gather_def refused_quotes_def no_responses_def detect_def watch_stock_def task_blocked_def
      case_prod_beta init_state_def)

text \<open>
  The claim as stated fails: the close is not unconditional. In a run whose login is
  refused with status 401, \<open>login\<close> raises, \<open>runner\<close> ends with that exception and the
  session is left open.
\<close>

theorem session_left_open_counterexample:
  "login (login_resp refused_login_run) = Inl (Exception ''Login failed! due to bad request'') \<and>
   runner decimal_float jhapa_bot refused_login_run =
     \<lparr>run_outcome = Raised (Exception ''Login failed! due to bad request''),
      session_closed = False, task_results = []\<rparr>"
  by (simp add: runner_def refused_login_run_def get_cookies_def login_def aborted_def)

end
